theory Spec2Isabelle
  imports Complex_Main "HOL-Library.Log_Nat"
begin

section \<open>Python values read from the workbook\<close>

text \<open>
  Strings are lists of characters with code points below 256, the range of the type
  \<open>char\<close>; text with other characters is outside this development. On these,
  \<open>str.strip\<close> removes the characters for which \<open>str.isspace\<close> holds: the
  codes 9 to 13, 28 to 32, 133 (next line) and 160 (no-break space). \<open>str.lower\<close>
  adds 32 to the codes of the capital letters: 65 to 90 (\<open>A\<close>..\<open>Z\<close>) and 192 to 222
  except 215 (the multiplication sign); it changes no other character of this range
  and never the length of the string.
\<close>

definition is_space :: "char \<Rightarrow> bool" where
  "is_space c =
     (let n = (of_char c :: nat)
      in (9 \<le> n \<and> n \<le> 13) \<or> (28 \<le> n \<and> n \<le> 32) \<or> n = 133 \<or> n = 160)"

definition py_strip :: "string \<Rightarrow> string" where
  "py_strip s = rev (dropWhile is_space (rev (dropWhile is_space s)))"

definition lower_char :: "char \<Rightarrow> char" where
  "lower_char c =
     (let n = (of_char c :: nat)
      in if (65 \<le> n \<and> n \<le> 90) \<or> (192 \<le> n \<and> n \<le> 222 \<and> n \<noteq> 215)
         then char_of (n + 32) else c)"

definition py_lower :: "string \<Rightarrow> string" where
  "py_lower s = map lower_char s"

text \<open>\<open>_normalize_name\<close> of \<open>app/data_store.py\<close>: \<open>str(name).strip().lower()\<close>.\<close>

definition normalize_name :: "string \<Rightarrow> string" where
  "normalize_name name = py_lower (py_strip name)"

text \<open>
  The exceptions the store can meet. The first three are raised by the conversion
  builtins \<open>int\<close> and \<open>float\<close>; \<open>KeyError\<close> is a failed dictionary lookup;
  the next three are the \<open>raise\<close> statements of \<open>reduce_stock\<close>
  (a \<open>ValueError\<close>, a \<open>KeyError\<close> and a \<open>ValueError\<close> in Python);
  \<open>OSError\<close> is a failed write of the workbook file and \<open>RuntimeError\<close>
  the one that \<open>_persist_stock_changes\<close> raises.
\<close>

datatype py_exc =
    TypeError
  | ValueError
  | OverflowError
  | KeyError string
  | QuantityNotPositive
  | MedicineNotFound string
  | InsufficientStock string int int
  | OSError
  | RuntimeError

text \<open>
  A cell value as openpyxl delivers it: \<open>None\<close>, a string, an integer, a float, a
  boolean or a date/time value (carried by its \<open>str\<close> rendering). Floats are an
  abstract type \<open>'f\<close>: the store only converts and carries them.
\<close>

datatype 'f cell = CNone | CStr string | CInt int | CFloat 'f | CBool bool | CDate string

text \<open>
  The builtins of Python that touch floats or parse strings are parameters:
  \<open>int(s)\<close> and \<open>float(s)\<close> on a string (\<open>None\<close> is \<open>ValueError\<close>),
  \<open>int(x)\<close> on a float (\<open>ValueError\<close> on nan, \<open>OverflowError\<close> on an infinity),
  \<open>float(i)\<close> on an integer (\<open>OverflowError\<close> when too large), \<open>str(x)\<close> and
  \<open>bool(x)\<close> on a float, and the literal \<open>0.0\<close>.
\<close>

record 'f builtins =
  int_of_str :: "string \<Rightarrow> int option"
  int_of_float :: "'f \<Rightarrow> py_exc + int"
  float_of_str :: "string \<Rightarrow> 'f option"
  float_of_int :: "int \<Rightarrow> py_exc + 'f"
  str_of_float :: "'f \<Rightarrow> string"
  float_truthy :: "'f \<Rightarrow> bool"
  float_zero :: "'f"

fun py_int :: "'f builtins \<Rightarrow> 'f cell \<Rightarrow> py_exc + int" where
  "py_int B CNone = Inl TypeError"
| "py_int B (CStr s) = (case int_of_str B s of None \<Rightarrow> Inl ValueError | Some i \<Rightarrow> Inr i)"
| "py_int B (CInt i) = Inr i"
| "py_int B (CFloat x) = int_of_float B x"
| "py_int B (CBool b) = Inr (if b then 1 else 0)"
| "py_int B (CDate d) = Inl TypeError"

fun py_float :: "'f builtins \<Rightarrow> 'f cell \<Rightarrow> py_exc + 'f" where
  "py_float B CNone = Inl TypeError"
| "py_float B (CStr s) = (case float_of_str B s of None \<Rightarrow> Inl ValueError | Some x \<Rightarrow> Inr x)"
| "py_float B (CInt i) = float_of_int B i"
| "py_float B (CFloat x) = Inr x"
| "py_float B (CBool b) = float_of_int B (if b then 1 else 0)"
| "py_float B (CDate d) = Inl TypeError"

definition digit_char :: "nat \<Rightarrow> char" where
  "digit_char d = char_of (48 + d)"

function str_nat :: "nat \<Rightarrow> string" where
  "str_nat n = (if n < 10 then [digit_char n] else str_nat (n div 10) @ [digit_char (n mod 10)])"
  by pat_completeness auto
termination
  by (relation "measure id") auto

definition str_int :: "int \<Rightarrow> string" where
  "str_int i = (if i < 0 then CHR ''-'' # str_nat (nat (- i)) else str_nat (nat i))"

fun py_str :: "'f builtins \<Rightarrow> 'f cell \<Rightarrow> string" where
  "py_str B CNone = ''None''"
| "py_str B (CStr s) = s"
| "py_str B (CInt i) = str_int i"
| "py_str B (CFloat x) = str_of_float B x"
| "py_str B (CBool b) = (if b then ''True'' else ''False'')"
| "py_str B (CDate d) = d"

fun truthy :: "'f builtins \<Rightarrow> 'f cell \<Rightarrow> bool" where
  "truthy B CNone = False"
| "truthy B (CStr s) = (s \<noteq> [])"
| "truthy B (CInt i) = (i \<noteq> 0)"
| "truthy B (CFloat x) = float_truthy B x"
| "truthy B (CBool b) = b"
| "truthy B (CDate d) = True"

text \<open>\<open>value in (None, "")\<close>: only \<open>None\<close> and the empty string compare equal.\<close>

definition is_blank :: "'f cell \<Rightarrow> bool" where
  "is_blank v = (case v of CNone \<Rightarrow> True | CStr s \<Rightarrow> s = [] | _ \<Rightarrow> False)"

text \<open>\<open>x or ""\<close>.\<close>

definition or_empty :: "'f builtins \<Rightarrow> 'f cell \<Rightarrow> 'f cell" where
  "or_empty B v = (if truthy B v then v else CStr [])"

text \<open>
  \<open>ExcelDataStore._to_int\<close> and \<open>ExcelDataStore._to_float\<close>: the default for a blank
  value, the conversion otherwise, the default again when the conversion raises
  \<open>TypeError\<close> or \<open>ValueError\<close>; any other exception propagates.
\<close>

definition to_int :: "'f builtins \<Rightarrow> 'f cell \<Rightarrow> int \<Rightarrow> py_exc + int" where
  "to_int B v dflt =
     (if is_blank v then Inr dflt
      else case py_int B v of
             Inr i \<Rightarrow> Inr i
           | Inl TypeError \<Rightarrow> Inr dflt
           | Inl ValueError \<Rightarrow> Inr dflt
           | Inl e \<Rightarrow> Inl e)"

definition to_float :: "'f builtins \<Rightarrow> 'f cell \<Rightarrow> 'f option \<Rightarrow> py_exc + 'f option" where
  "to_float B v dflt =
     (if is_blank v then Inr dflt
      else case py_float B v of
             Inr x \<Rightarrow> Inr (Some x)
           | Inl TypeError \<Rightarrow> Inr dflt
           | Inl ValueError \<Rightarrow> Inr dflt
           | Inl e \<Rightarrow> Inl e)"

section \<open>The inventory store (\<open>app/data_store.py\<close>)\<close>

text \<open>
  A data row of the sheet is given by the six cells that \<open>_read_rows\<close> reads through
  the column map. The sheet is the list of its data rows; the row at position \<open>i\<close> of
  the list is row \<open>i + 2\<close> of the worksheet (row 1 holds the headers).
\<close>

record 'f row =
  name_cell :: "'f cell"
  price_cell :: "'f cell"
  stock_cell :: "'f cell"
  mg_cell :: "'f cell"
  rack_cell :: "'f cell"
  actual_price_cell :: "'f cell"

text \<open>The record dictionary with the keys name, mg, rack, stock and price.\<close>

record 'f med =
  r_name :: string
  r_mg :: string
  r_rack :: string
  r_stock :: int
  r_price :: "'f option"

text \<open>
  \<open>_RowRef\<close>: the row's index, and the coordinate of its stock cell, given by the
  number of the row that holds the cell (its column is the stock column).
\<close>

record row_ref =
  row_index :: nat
  stock_cell_ref :: nat

record 'f store =
  sheet :: "'f row list"
  names :: "string list"
  records :: "string \<rightharpoonup> 'f med"
  row_refs :: "string \<rightharpoonup> row_ref"

text \<open>
  Lines 71 to 93 of \<open>_read_rows\<close>: \<open>None\<close> when the row is skipped, otherwise the
  normalized name and the record built from the row.
\<close>

definition row_record :: "'f builtins \<Rightarrow> 'f row \<Rightarrow> py_exc + (string \<times> 'f med) option" where
  "row_record B rw =
     (let name_val = name_cell rw in
      if is_blank name_val then Inr None
      else
        let mg = or_empty B (mg_cell rw);
            rack = or_empty B (rack_cell rw)
        in case to_int B (stock_cell rw) 0 of
             Inl e \<Rightarrow> Inl e
           | Inr stock \<Rightarrow>
        (case to_float B (price_cell rw) (Some (float_zero B)) of
             Inl e \<Rightarrow> Inl e
           | Inr price_val \<Rightarrow>
        (case to_float B (actual_price_cell rw) None of
             Inl e \<Rightarrow> Inl e
           | Inr actual_price_val \<Rightarrow>
               let effective_price =
                     (case actual_price_val of Some a \<Rightarrow> Some a | None \<Rightarrow> price_val);
                   norm_name = normalize_name (py_str B name_val)
               in Inr (Some (norm_name,
                    \<lparr>r_name = py_str B name_val, r_mg = py_str B mg, r_rack = py_str B rack,
                     r_stock = stock, r_price = effective_price\<rparr>)))))"

text \<open>One turn of the loop of \<open>_read_rows\<close>, for the row with index \<open>row_idx\<close>.\<close>

definition read_row :: "'f builtins \<Rightarrow> nat \<Rightarrow> 'f row \<Rightarrow> 'f store \<Rightarrow> py_exc + 'f store" where
  "read_row B row_idx rw st =
     (case row_record B rw of
        Inl e \<Rightarrow> Inl e
      | Inr None \<Rightarrow> Inr st
      | Inr (Some (norm_name, record)) \<Rightarrow>
          Inr (st\<lparr>names := names st @ [r_name record],
                  records := (records st)(norm_name \<mapsto> record),
                  row_refs := (row_refs st)(norm_name \<mapsto>
                     \<lparr>row_index = row_idx, stock_cell_ref = row_idx\<rparr>)\<rparr>))"

fun read_rows_from :: "'f builtins \<Rightarrow> nat \<Rightarrow> 'f row list \<Rightarrow> 'f store \<Rightarrow> py_exc + 'f store" where
  "read_rows_from B row_idx [] st = Inr st"
| "read_rows_from B row_idx (rw # rws) st =
     (case read_row B row_idx rw st of
        Inl e \<Rightarrow> Inl e
      | Inr st' \<Rightarrow> read_rows_from B (Suc row_idx) rws st')"

definition read_rows :: "'f builtins \<Rightarrow> 'f store \<Rightarrow> py_exc + 'f store" where
  "read_rows B st =
     read_rows_from B 2 (sheet st)
       (st\<lparr>names := [], records := Map.empty, row_refs := Map.empty\<rparr>)"

text \<open>
  \<open>ExcelDataStore()\<close> on a workbook file whose sheet and required columns exist:
  the workbook is read into memory and \<open>_read_rows\<close> fills the tables. \<open>save\<close>
  writes the in-memory sheet back to the file.
\<close>

definition load :: "'f builtins \<Rightarrow> 'f row list \<Rightarrow> py_exc + 'f store" where
  "load B file =
     read_rows B \<lparr>sheet = file, names = [], records = Map.empty, row_refs = Map.empty\<rparr>"

definition save :: "'f store \<Rightarrow> 'f row list" where
  "save st = sheet st"

definition get_all_names :: "'f store \<Rightarrow> string list" where
  "get_all_names st = names st"

definition get_medicine :: "'f store \<Rightarrow> string \<Rightarrow> 'f med option" where
  "get_medicine st name = records st (normalize_name name)"

text \<open>
  \<open>self._sheet[ref].value = v\<close> for the stock cell of worksheet row \<open>ref\<close>. A
  reference made by \<open>_read_rows\<close> is to a row of the sheet; for a row beyond the
  sheet openpyxl would create the cell, which the list update does not do.
\<close>

definition set_stock_cell :: "'f row list \<Rightarrow> nat \<Rightarrow> 'f cell \<Rightarrow> 'f row list" where
  "set_stock_cell rws ref v = rws[ref - 2 := (rws ! (ref - 2))\<lparr>stock_cell := v\<rparr>]"

text \<open>
  \<open>reduce_stock\<close>: \<open>Inl (e, st')\<close> is the exception \<open>e\<close> raised with the store left
  as \<open>st'\<close>, \<open>Inr st'\<close> the normal return.
\<close>

definition reduce_stock :: "'f store \<Rightarrow> string \<Rightarrow> int \<Rightarrow> (py_exc \<times> 'f store) + 'f store" where
  "reduce_stock st name qty =
     (if qty \<le> 0 then Inl (QuantityNotPositive, st)
      else
        let norm = normalize_name name in
        case records st norm of
          None \<Rightarrow> Inl (MedicineNotFound name, st)
        | Some record \<Rightarrow>
            let new_stock = r_stock record - qty in
            if new_stock < 0 then Inl (InsufficientStock (r_name record) (r_stock record) qty, st)
            else
              let st1 = st\<lparr>records := (records st)(norm \<mapsto> record\<lparr>r_stock := new_stock\<rparr>)\<rparr> in
              case row_refs st1 norm of
                None \<Rightarrow> Inl (KeyError norm, st1)
              | Some ref \<Rightarrow>
                  Inr (st1\<lparr>sheet := set_stock_cell (sheet st1) (stock_cell_ref ref) (CInt new_stock)\<rparr>))"

text \<open>
  The store is in step with its sheet when reading the sheet again gives the tables it
  holds. \<open>load\<close> produces such a store and \<open>reduce_stock\<close> keeps it so (both are
  proved below).
\<close>

definition synced :: "'f builtins \<Rightarrow> 'f store \<Rightarrow> bool" where
  "synced B st = (read_rows B st = Inr st)"

section \<open>The invoice (\<open>app/models.py\<close>)\<close>

text \<open>
  \<open>InvoiceItem\<close> and \<open>Invoice.add_item\<close>. The loop over \<open>self.items\<close> returns at
  the first item whose name is equal (\<open>==\<close> on strings) to the new item's name, after
  adding the new quantity to it; when no item matches, the new item is appended.
  The money methods (\<open>line_total\<close>, \<open>subtotal\<close>, \<open>discount_amount\<close>,
  \<open>net_total\<close>) compute on floats; they follow, after a model of the floats.
\<close>

record 'f invoice_item =
  i_name :: string
  i_mg :: string
  i_rack :: string
  unit_price :: "'f option"
  qty :: int

fun add_item :: "'f invoice_item list \<Rightarrow> 'f invoice_item \<Rightarrow> 'f invoice_item list" where
  "add_item [] item = [item]"
| "add_item (existing # rest) item =
     (if i_name existing = i_name item
      then existing\<lparr>qty := qty existing + qty item\<rparr> # rest
      else existing # add_item rest item)"

definition total_qty :: "'f invoice_item list \<Rightarrow> int" where
  "total_qty items = sum_list (map qty items)"

subsection \<open>Floats\<close>

text \<open>
  A Python float is an IEEE 754 double: a finite number, an infinity or a
  not-a-number. A finite double is carried by its value, a rational number, so the two
  zeros are one value: they are equal for \<open>==\<close>, and sums, differences and products,
  and quotients by \<open>100.0\<close>, of floats that differ only in the sign of a zero differ
  at most in the sign of a zero.
\<close>

datatype pyfloat = Finite rat | PosInf | NegInf | NaN

text \<open>
  Rounding to the nearest double, ties to even. For a positive rational \<open>x\<close>,
  \<open>floor_log2 x\<close> is the integer \<open>k\<close> with \<open>2 ^ k \<le> x < 2 ^ (k + 1)\<close> (computed
  from the bit lengths of numerator and denominator); the doubles around \<open>x\<close> are the
  multiples of \<open>2 ^ (k - 52)\<close>, and of \<open>2 ^ (- 1074)\<close> in the subnormal range.
  \<open>round_half_even\<close> rounds a rational to the nearest integer, to the even one of the
  two when it is half way. A result of magnitude \<open>2 ^ 1024\<close> or more is an infinity.
\<close>

definition floor_log2 :: "rat \<Rightarrow> int" where
  "floor_log2 x = (let k = bitlen (fst (quotient_of x)) - bitlen (snd (quotient_of x))
              in if 2 powi k \<le> x then k else k - 1)"

definition ulp_exp :: "rat \<Rightarrow> int" where
  "ulp_exp x = max (floor_log2 x - 52) (- 1074)"

definition round_half_even :: "rat \<Rightarrow> int" where
  "round_half_even y = (let f = \<lfloor>y\<rfloor>; r = y - of_int f in
            if r < 1 / 2 then f else if 1 / 2 < r then f + 1 else if even f then f else f + 1)"

definition round_pos :: "rat \<Rightarrow> rat" where
  "round_pos x = (let e = ulp_exp x in of_int (round_half_even (x / 2 powi e)) * 2 powi e)"

definition round_double :: "rat \<Rightarrow> pyfloat" where
  "round_double x =
     (if x = 0 then Finite 0
      else let y = round_pos \<bar>x\<bar> in
           if 2 ^ 1024 \<le> y then (if 0 < x then PosInf else NegInf)
           else Finite (if 0 < x then y else - y))"

text \<open>
  The finite values that are doubles are those that rounding leaves as they are. Every
  operation below returns such a value, an infinity or a not-a-number.
\<close>

definition is_double :: "pyfloat \<Rightarrow> bool" where
  "is_double a = (case a of Finite x \<Rightarrow> round_double x = Finite x | _ \<Rightarrow> True)"

text \<open>
  Negation, addition, subtraction and multiplication of floats: the exact result,
  rounded, with the rules of IEEE 754 for the infinities and for not-a-number (the sum
  of the two infinities and the product of an infinity and zero are not-a-number).
  \<open>positive\<close> is the sign that decides the sign of an infinite product.
\<close>

fun fneg :: "pyfloat \<Rightarrow> pyfloat" where
  "fneg (Finite x) = Finite (- x)"
| "fneg PosInf = NegInf"
| "fneg NegInf = PosInf"
| "fneg NaN = NaN"

fun fadd :: "pyfloat \<Rightarrow> pyfloat \<Rightarrow> pyfloat" where
  "fadd (Finite x) (Finite y) = round_double (x + y)"
| "fadd NaN b = NaN"
| "fadd a NaN = NaN"
| "fadd PosInf NegInf = NaN"
| "fadd NegInf PosInf = NaN"
| "fadd PosInf b = PosInf"
| "fadd a PosInf = PosInf"
| "fadd NegInf b = NegInf"
| "fadd a NegInf = NegInf"

definition fsub :: "pyfloat \<Rightarrow> pyfloat \<Rightarrow> pyfloat" where
  "fsub a b = fadd a (fneg b)"

fun positive :: "pyfloat \<Rightarrow> bool" where
  "positive (Finite x) = (0 < x)"
| "positive PosInf = True"
| "positive NegInf = False"
| "positive NaN = False"

fun fmul :: "pyfloat \<Rightarrow> pyfloat \<Rightarrow> pyfloat" where
  "fmul (Finite x) (Finite y) = round_double (x * y)"
| "fmul NaN b = NaN"
| "fmul a NaN = NaN"
| "fmul a b = (if a = Finite 0 \<or> b = Finite 0 then NaN
               else if positive a = positive b then PosInf else NegInf)"

text \<open>The quotient \<open>percent / 100.0\<close>.\<close>

definition div_by_100 :: "pyfloat \<Rightarrow> pyfloat" where
  "div_by_100 p = (case p of Finite x \<Rightarrow> round_double (x / 100) | _ \<Rightarrow> p)"

text \<open>The comparison \<open>==\<close> of two floats: a not-a-number is equal to nothing.\<close>

definition py_eq :: "pyfloat \<Rightarrow> pyfloat \<Rightarrow> bool" where
  "py_eq a b = (a \<noteq> NaN \<and> b \<noteq> NaN \<and> a = b)"

text \<open>\<open>fabs\<close>, the comparison \<open>>=\<close> and \<open>isfinite\<close> of C, which the summation uses.\<close>

fun fabs :: "pyfloat \<Rightarrow> pyfloat" where
  "fabs (Finite x) = Finite \<bar>x\<bar>"
| "fabs NegInf = PosInf"
| "fabs a = a"

fun fge :: "pyfloat \<Rightarrow> pyfloat \<Rightarrow> bool" where
  "fge (Finite x) (Finite y) = (y \<le> x)"
| "fge NaN b = False"
| "fge a NaN = False"
| "fge PosInf b = True"
| "fge a NegInf = True"
| "fge a b = False"

fun is_finite :: "pyfloat \<Rightarrow> bool" where
  "is_finite (Finite x) = True"
| "is_finite a = False"

text \<open>
  The conversion of an integer to a float, as the product of a float and an integer
  does it: the nearest double, or \<open>OverflowError\<close> when the integer is too large.
\<close>

definition double_of_int :: "int \<Rightarrow> py_exc + pyfloat" where
  "double_of_int i = (case round_double (of_int i) of Finite x \<Rightarrow> Inr (Finite x) | _ \<Rightarrow> Inl OverflowError)"

subsection \<open>The money methods\<close>

text \<open>
  \<open>InvoiceItem.line_total\<close>: \<open>self.unit_price * self.qty\<close>. The price is a float, or
  \<open>None\<close> for a record without price, for which the product raises \<open>TypeError\<close>.
  \<open>line_totals\<close> is the generator that \<open>subtotal\<close> passes to \<open>sum\<close>: the line
  totals in the order of the items, or the first exception.
\<close>

definition line_total :: "pyfloat invoice_item \<Rightarrow> py_exc + pyfloat" where
  "line_total item =
     (case unit_price item of
        None \<Rightarrow> Inl TypeError
      | Some u \<Rightarrow> (case double_of_int (qty item) of Inl e \<Rightarrow> Inl e | Inr q \<Rightarrow> Inr (fmul u q)))"

fun line_totals :: "pyfloat invoice_item list \<Rightarrow> py_exc + pyfloat list" where
  "line_totals [] = Inr []"
| "line_totals (item # items) =
     (case line_total item of
        Inl e \<Rightarrow> Inl e
      | Inr t \<Rightarrow> (case line_totals items of Inl e \<Rightarrow> Inl e | Inr ts \<Rightarrow> Inr (t # ts)))"

text \<open>
  The builtin \<open>sum\<close> starts from the integer 0. The sum of no items is this 0, carried
  here as the float zero that it is equal to; otherwise 0 plus the first line total is
  that float, and the other floats are added to it from left to right. CPython up to
  version 3.11 adds them one by one; from version 3.12 on it keeps a compensation term
  beside the running sum (the summation of Neumaier) and adds it at the end when it is
  finite and not zero. The parameter \<open>summation\<close> says which of the two the
  interpreter does.
\<close>

datatype summation = Sequential | Compensated

fun sum_sequential :: "pyfloat \<Rightarrow> pyfloat list \<Rightarrow> pyfloat" where
  "sum_sequential f [] = f"
| "sum_sequential f (x # xs) = sum_sequential (fadd f x) xs"

fun sum_compensated :: "pyfloat \<Rightarrow> pyfloat \<Rightarrow> pyfloat list \<Rightarrow> pyfloat" where
  "sum_compensated f c [] = (if c \<noteq> Finite 0 \<and> is_finite c then fadd f c else f)"
| "sum_compensated f c (x # xs) =
     (let t = fadd f x;
          c' = (if fge (fabs f) (fabs x) then fadd c (fadd (fsub f t) x)
                else fadd c (fadd (fsub x t) f))
      in sum_compensated t c' xs)"

fun py_sum :: "summation \<Rightarrow> pyfloat list \<Rightarrow> pyfloat" where
  "py_sum m [] = Finite 0"
| "py_sum Sequential (x # xs) = sum_sequential (fadd (Finite 0) x) xs"
| "py_sum Compensated (x # xs) = sum_compensated (fadd (Finite 0) x) (Finite 0) xs"

text \<open>
  \<open>Invoice.subtotal\<close>, \<open>Invoice.discount_amount\<close> and \<open>Invoice.net_total\<close>;
  \<open>net_total\<close> computes the subtotal a second time inside \<open>discount_amount\<close>.
\<close>

definition subtotal :: "summation \<Rightarrow> pyfloat invoice_item list \<Rightarrow> py_exc + pyfloat" where
  "subtotal m items = (case line_totals items of Inl e \<Rightarrow> Inl e | Inr ts \<Rightarrow> Inr (py_sum m ts))"

definition discount_amount :: "summation \<Rightarrow> pyfloat invoice_item list \<Rightarrow> pyfloat \<Rightarrow> py_exc + pyfloat" where
  "discount_amount m items percent =
     (case subtotal m items of Inl e \<Rightarrow> Inl e | Inr s \<Rightarrow> Inr (fmul s (div_by_100 percent)))"

definition net_total :: "summation \<Rightarrow> pyfloat invoice_item list \<Rightarrow> pyfloat \<Rightarrow> py_exc + pyfloat" where
  "net_total m items percent =
     (case subtotal m items of
        Inl e \<Rightarrow> Inl e
      | Inr s \<Rightarrow> (case discount_amount m items percent of Inl e \<Rightarrow> Inl e | Inr d \<Rightarrow> Inr (fsub s d)))"

text \<open>
  The test \<open>discount_amount(percent) + net_total(percent) == subtotal()\<close> of the
  specification, as Python evaluates it.
\<close>

definition discount_plus_net_is_subtotal ::
    "summation \<Rightarrow> pyfloat invoice_item list \<Rightarrow> pyfloat \<Rightarrow> py_exc + bool" where
  "discount_plus_net_is_subtotal m items percent =
     (case discount_amount m items percent of
        Inl e \<Rightarrow> Inl e
      | Inr d \<Rightarrow>
     (case net_total m items percent of
        Inl e \<Rightarrow> Inl e
      | Inr n \<Rightarrow>
     (case subtotal m items of
        Inl e \<Rightarrow> Inl e
      | Inr s \<Rightarrow> Inr (py_eq (fadd d n) s))))"

section \<open>The main window (\<open>app/ui_main.py\<close>)\<close>

text \<open>
  The window's state: the workbook file it reads and writes, the store, the invoice's
  items, the reservation ledger \<open>added_qty\<close>, the selected name, what the four detail
  labels show (\<open>None\<close> when they show a dash), the names offered by the completer and
  whether the two buttons are enabled. An operation returns the message boxes it shows
  and the new state. The invoice table and the totals label are renderings of the
  invoice and are left out.
\<close>

datatype msg =
    SelectMedicineFirst
  | SelectedMedicineMissing
  | InsufficientStockWarning int string
  | NotFoundInfo
  | ExcelNotLoaded
  | NoItems
  | PrinterError
  | StockUpdateFailed py_exc
  | Printed
  | ExcelLoadFailed py_exc

record 'f details =
  mg_label :: string
  rack_label :: string
  stock_label :: int
  price_label :: "'f option"

record 'f window =
  disk :: "'f row list"
  store :: "'f store option"
  invoice :: "'f invoice_item list"
  added_qty :: "string \<rightharpoonup> int"
  selected_name :: "string option"
  details :: "'f details option"
  completions :: "string list"
  add_enabled :: bool
  print_enabled :: bool

definition clear_selection :: "'f window \<Rightarrow> 'f window" where
  "clear_selection w = w\<lparr>selected_name := None, details := None\<rparr>"

text \<open>\<open>self.added_qty.get(name, 0)\<close>.\<close>

definition reserved :: "'f window \<Rightarrow> string \<Rightarrow> int" where
  "reserved w name = (case added_qty w name of None \<Rightarrow> 0 | Some used \<Rightarrow> used)"

definition available_stock :: "'f window \<Rightarrow> string \<Rightarrow> int" where
  "available_stock w name =
     (case store w of
        None \<Rightarrow> 0
      | Some st \<Rightarrow>
          (case get_medicine st name of
             None \<Rightarrow> 0
           | Some record \<Rightarrow>
               let used = reserved w (r_name record) in max (r_stock record - used) 0))"

definition select_medicine :: "'f window \<Rightarrow> string \<Rightarrow> 'f window" where
  "select_medicine w name =
     (case store w of
        None \<Rightarrow> w
      | Some st \<Rightarrow>
          (case get_medicine st name of
             None \<Rightarrow> clear_selection w
           | Some record \<Rightarrow>
               w\<lparr>selected_name := Some (r_name record),
                 details := Some \<lparr>mg_label = r_mg record, rack_label = r_rack record,
                   stock_label = available_stock w (r_name record),
                   price_label = r_price record\<rparr>\<rparr>))"

definition on_search_text :: "'f window \<Rightarrow> string \<Rightarrow> 'f window" where
  "on_search_text w text =
     (if text = [] then clear_selection w
      else case store w of
             None \<Rightarrow> w
           | Some st \<Rightarrow>
               (case get_medicine st text of
                  None \<Rightarrow> w
                | Some record \<Rightarrow> select_medicine w (r_name record)))"

text \<open>\<open>_on_search_enter\<close>, for the text of the search box.\<close>

definition on_search_enter :: "'f window \<Rightarrow> string \<Rightarrow> msg list \<times> 'f window" where
  "on_search_enter w input =
     (let text = py_strip input in
      case store w of
        None \<Rightarrow> ([], w)
      | Some st \<Rightarrow>
          if text = [] then ([], w)
          else (case get_medicine st text of
                  Some record \<Rightarrow> ([], select_medicine w (r_name record))
                | None \<Rightarrow> ([NotFoundInfo], clear_selection w)))"

text \<open>
  \<open>_add_to_invoice\<close>, for the value \<open>q\<close> of the quantity spin box (which the widget
  keeps between 1 and 1000000).
\<close>

definition add_to_invoice :: "'f window \<Rightarrow> int \<Rightarrow> msg list \<times> 'f window" where
  "add_to_invoice w q =
     (case store w of
        None \<Rightarrow> ([SelectMedicineFirst], w)
      | Some st \<Rightarrow>
          (case selected_name w of
             None \<Rightarrow> ([SelectMedicineFirst], w)
           | Some sel \<Rightarrow>
               if sel = [] then ([SelectMedicineFirst], w)
               else (case get_medicine st sel of
                  None \<Rightarrow> ([SelectedMedicineMissing], w)
                | Some record \<Rightarrow>
                    let available = available_stock w (r_name record) in
                    if q > available
                    then ([InsufficientStockWarning available (r_name record)], w)
                    else
                      let item = \<lparr>i_name = r_name record, i_mg = r_mg record,
                                   i_rack = r_rack record, unit_price = r_price record,
                                   qty = q\<rparr>;
                          w1 = w\<lparr>invoice := add_item (invoice w) item\<rparr>;
                          w2 = w1\<lparr>added_qty := (added_qty w1)(r_name record \<mapsto>
                                    reserved w1 (r_name record) + q)\<rparr>
                      in ([], select_medicine w2 (r_name record)))))"

text \<open>
  \<open>_load_store\<close>: a failed load leaves \<open>self.store\<close> as it was and disables the
  buttons.
\<close>

definition load_store :: "'f builtins \<Rightarrow> 'f window \<Rightarrow> msg list \<times> 'f window" where
  "load_store B w =
     (case load B (disk w) of
        Inr st \<Rightarrow> ([], w\<lparr>store := Some st, completions := get_all_names st\<rparr>)
      | Inl exc \<Rightarrow>
          ([ExcelLoadFailed exc], w\<lparr>add_enabled := False, print_enabled := False,
                                     completions := []\<rparr>))"

definition clear_invoice :: "'f builtins \<Rightarrow> 'f window \<Rightarrow> msg list \<times> 'f window" where
  "clear_invoice B w =
     (let w1 = clear_selection (w\<lparr>invoice := [], added_qty := Map.empty\<rparr>) in
      case store w1 of None \<Rightarrow> ([], w1) | Some st \<Rightarrow> load_store B w1)"

text \<open>The loop of \<open>_on_print\<close> over the invoice's items.\<close>

fun reduce_all :: "'f store \<Rightarrow> 'f invoice_item list \<Rightarrow> (py_exc \<times> 'f store) + 'f store" where
  "reduce_all st [] = Inr st"
| "reduce_all st (item # items) =
     (case reduce_stock st (i_name item) (qty item) of
        Inl failure \<Rightarrow> Inl failure
      | Inr st' \<Rightarrow> reduce_all st' items)"

text \<open>
  \<open>_on_print\<close>. \<open>printer_valid\<close> is what \<open>printer.isValid()\<close> answers and
  \<open>save_ok\<close> whether writing the workbook file succeeds.
\<close>

definition on_print :: "'f builtins \<Rightarrow> bool \<Rightarrow> bool \<Rightarrow> 'f window \<Rightarrow> msg list \<times> 'f window" where
  "on_print B printer_valid save_ok w =
     (case store w of
        None \<Rightarrow> ([ExcelNotLoaded], w)
      | Some st \<Rightarrow>
          if invoice w = [] then ([NoItems], w)
          else if \<not> printer_valid then ([PrinterError], w)
          else (case reduce_all st (invoice w) of
                  Inl (exc, st') \<Rightarrow> ([StockUpdateFailed exc], w\<lparr>store := Some st'\<rparr>)
                | Inr st' \<Rightarrow>
                    if \<not> save_ok then ([StockUpdateFailed OSError], w\<lparr>store := Some st'\<rparr>)
                    else
                      let (msgs, w') = clear_invoice B (w\<lparr>store := Some st', disk := save st'\<rparr>)
                      in (Printed # msgs, w')))"

text \<open>The window as \<open>__init__\<close> leaves it, for the workbook file \<open>file\<close>.\<close>

definition init_window :: "'f builtins \<Rightarrow> 'f row list \<Rightarrow> msg list \<times> 'f window" where
  "init_window B file =
     load_store B \<lparr>disk = file, store = None, invoice = [], added_qty = Map.empty,
       selected_name = None, details = None, completions = [],
       add_enabled = True, print_enabled = True\<rparr>"

text \<open>
  Building a cart: a sequence of selections by name and of clicks on the add button.
\<close>

datatype action = Select string | Add int

fun do_action :: "'f window \<Rightarrow> action \<Rightarrow> 'f window" where
  "do_action w (Select name) = select_medicine w name"
| "do_action w (Add q) = snd (add_to_invoice w q)"

fun run :: "'f window \<Rightarrow> action list \<Rightarrow> 'f window" where
  "run w [] = w"
| "run w (a # as) = run (do_action w a) as"

section \<open>The second window (\<open>app/ui/main_window.py\<close>) and its repository\<close>

text \<open>
  \<open>Medicine\<close> and \<open>InvoiceItem\<close> of \<open>app/models/medicine.py\<close>.
\<close>

record 'f medicine =
  m_name :: string
  m_mg :: string
  rack_number :: string
  m_stock :: int
  m_price :: "'f option"
  actual_price :: "'f option"

definition effective_price :: "'f medicine \<Rightarrow> 'f option" where
  "effective_price m = (case actual_price m of Some a \<Rightarrow> Some a | None \<Rightarrow> m_price m)"

record 'f line_item =
  medicine :: "'f medicine"
  quantity :: int

text \<open>
  \<open>ExcelRepository.list_medicines\<close> (its \<open>_to_int\<close> and \<open>_to_float\<close> are copies of
  the store's): a row whose name is falsy is skipped.
\<close>

definition medicine_of_row :: "'f builtins \<Rightarrow> 'f row \<Rightarrow> py_exc + 'f medicine option" where
  "medicine_of_row B rw =
     (let name = name_cell rw in
      if \<not> truthy B name then Inr None
      else
        let mg = or_empty B (mg_cell rw);
            rack = or_empty B (rack_cell rw)
        in case to_int B (stock_cell rw) 0 of
             Inl e \<Rightarrow> Inl e
           | Inr stock \<Rightarrow>
        (case to_float B (price_cell rw) (Some (float_zero B)) of
             Inl e \<Rightarrow> Inl e
           | Inr price \<Rightarrow>
        (case to_float B (actual_price_cell rw) None of
             Inl e \<Rightarrow> Inl e
           | Inr actual \<Rightarrow>
               Inr (Some \<lparr>m_name = py_str B name, m_mg = py_str B mg,
                          rack_number = py_str B rack, m_stock = stock, m_price = price,
                          actual_price = actual\<rparr>))))"

fun list_medicines :: "'f builtins \<Rightarrow> 'f row list \<Rightarrow> py_exc + 'f medicine list" where
  "list_medicines B [] = Inr []"
| "list_medicines B (rw # rws) =
     (case medicine_of_row B rw of
        Inl e \<Rightarrow> Inl e
      | Inr m \<Rightarrow>
          (case list_medicines B rws of
             Inl e \<Rightarrow> Inl e
           | Inr ms \<Rightarrow> Inr ((case m of None \<Rightarrow> [] | Some x \<Rightarrow> [x]) @ ms)))"

text \<open>
  The loop of \<open>save_stock_updates\<close>: a row whose name cell is a key of the dictionary
  (only a string cell can be) gets the new level in its stock cell.
\<close>

definition update_row_stock :: "(string \<rightharpoonup> int) \<Rightarrow> 'f row \<Rightarrow> 'f row" where
  "update_row_stock updated_stocks rw =
     (case name_cell rw of
        CStr s \<Rightarrow> (case updated_stocks s of
                     Some level \<Rightarrow> rw\<lparr>stock_cell := CInt level\<rparr>
                   | None \<Rightarrow> rw)
      | _ \<Rightarrow> rw)"

datatype msg2 =
    ChooseMedicineFirst
  | InsufficientStockBox int string
  | NothingToPrint
  | PrintFailed
  | PrintedBox
  | ExcelErrorBox py_exc
  | LoadErrorBox py_exc

record 'f window2 =
  repo_file :: "'f row list"
  repo :: "'f row list option"
  medicines_by_name :: "string \<rightharpoonup> 'f medicine"
  invoice_items :: "'f line_item list"
  invoice_quantities :: "string \<rightharpoonup> int"
  selected_medicine :: "'f medicine option"
  shown :: "'f details option"

definition clear_selection2 :: "'f window2 \<Rightarrow> 'f window2" where
  "clear_selection2 w = w\<lparr>selected_medicine := None, shown := None\<rparr>"

text \<open>\<open>{m.name: m for m in medicines}\<close>: a later medicine replaces an earlier one.\<close>

definition by_name :: "'f medicine list \<Rightarrow> (string \<rightharpoonup> 'f medicine)" where
  "by_name ms = foldl (\<lambda>d m. d(m_name m \<mapsto> m)) Map.empty ms"

definition load_inventory :: "'f builtins \<Rightarrow> 'f window2 \<Rightarrow> msg2 list \<times> 'f window2" where
  "load_inventory B w =
     (let w1 = w\<lparr>repo := Some (repo_file w)\<rparr> in
      case list_medicines B (repo_file w) of
        Inl exc \<Rightarrow> ([LoadErrorBox exc], clear_selection2 (w1\<lparr>medicines_by_name := Map.empty\<rparr>))
      | Inr ms \<Rightarrow> ([], clear_selection2 (w1\<lparr>medicines_by_name := by_name ms\<rparr>)))"

definition available_stock2 :: "'f window2 \<Rightarrow> 'f medicine \<Rightarrow> int" where
  "available_stock2 w m =
     (let used = (case invoice_quantities w (m_name m) of None \<Rightarrow> 0 | Some u \<Rightarrow> u)
      in max (m_stock m - used) 0)"

definition on_medicine_selected :: "'f window2 \<Rightarrow> string \<Rightarrow> 'f window2" where
  "on_medicine_selected w name =
     (case medicines_by_name w name of
        None \<Rightarrow> clear_selection2 w
      | Some m \<Rightarrow>
          w\<lparr>selected_medicine := Some m,
            shown := Some \<lparr>mg_label = m_mg m, rack_label = rack_number m,
              stock_label = available_stock2 w m, price_label = effective_price m\<rparr>\<rparr>)"

definition on_search_text_changed :: "'f window2 \<Rightarrow> string \<Rightarrow> 'f window2" where
  "on_search_text_changed w text =
     (case medicines_by_name w text of None \<Rightarrow> w | Some m \<Rightarrow> on_medicine_selected w text)"

text \<open>
  The loop of \<open>_add_or_update_item\<close> over \<open>self.invoice_items\<close>: it breaks at the
  first item whose medicine has the same name, after adding the quantity to it; its
  \<open>else\<close> branch appends a new item when no item matched.
\<close>

fun merge_item :: "'f line_item list \<Rightarrow> 'f medicine \<Rightarrow> int \<Rightarrow> 'f line_item list" where
  "merge_item [] m q = [\<lparr>medicine = m, quantity = q\<rparr>]"
| "merge_item (item # rest) m q =
     (if m_name (medicine item) = m_name m
      then item\<lparr>quantity := quantity item + q\<rparr> # rest
      else item # merge_item rest m q)"

definition add_or_update_item :: "'f window2 \<Rightarrow> 'f medicine \<Rightarrow> int \<Rightarrow> 'f window2" where
  "add_or_update_item w m q =
     w\<lparr>invoice_items := merge_item (invoice_items w) m q,
       invoice_quantities := (invoice_quantities w)(m_name m \<mapsto>
          (case invoice_quantities w (m_name m) of None \<Rightarrow> 0 | Some u \<Rightarrow> u) + q)\<rparr>"

definition on_add_clicked :: "'f window2 \<Rightarrow> int \<Rightarrow> msg2 list \<times> 'f window2" where
  "on_add_clicked w q =
     (case selected_medicine w of
        None \<Rightarrow> ([ChooseMedicineFirst], w)
      | Some m \<Rightarrow>
          let available = available_stock2 w m in
          if q > available then ([InsufficientStockBox available (m_name m)], w)
          else ([], on_medicine_selected (add_or_update_item w m q) (m_name m)))"

text \<open>
  \<open>_persist_stock_changes\<close>: the new level of every medicine is written into the
  repository's sheet, which is then saved to the file (\<open>save_ok\<close> tells whether the
  write succeeds). \<open>Inl (e, w')\<close> is the exception \<open>e\<close> with the window left as \<open>w'\<close>.
  Every medicine of \<open>medicines_by_name\<close> is filed under its own name, so the level that
  the dictionary \<open>new_levels\<close> holds for a name is that of the medicine found under it.
\<close>

definition new_levels :: "'f window2 \<Rightarrow> (string \<rightharpoonup> int)" where
  "new_levels w =
     (\<lambda>name. case medicines_by_name w name of
        None \<Rightarrow> None
      | Some med \<Rightarrow> Some (available_stock2 w med))"

definition persist_stock_changes :: "bool \<Rightarrow> 'f window2 \<Rightarrow> (py_exc \<times> 'f window2) + 'f window2" where
  "persist_stock_changes save_ok w =
     (case repo w of
        None \<Rightarrow> Inl (RuntimeError, w)
      | Some sh \<Rightarrow>
          let w1 = w\<lparr>repo := Some (map (update_row_stock (new_levels w)) sh)\<rparr> in
          if save_ok then Inr (w1\<lparr>repo_file := map (update_row_stock (new_levels w)) sh\<rparr>)
          else Inl (OSError, w1))"

definition reset_invoice :: "'f builtins \<Rightarrow> 'f window2 \<Rightarrow> msg2 list \<times> 'f window2" where
  "reset_invoice B w = load_inventory B (w\<lparr>invoice_items := [], invoice_quantities := Map.empty\<rparr>)"

text \<open>
  \<open>_on_print_clicked\<close>; \<open>success\<close> is what \<open>ReceiptPrinter.print_receipt\<close> returns.
\<close>

definition on_print_clicked :: "'f builtins \<Rightarrow> bool \<Rightarrow> bool \<Rightarrow> 'f window2 \<Rightarrow> msg2 list \<times> 'f window2" where
  "on_print_clicked B success save_ok w =
     (if invoice_items w = [] then ([NothingToPrint], w)
      else if \<not> success then ([PrintFailed], w)
      else (case persist_stock_changes save_ok w of
              Inl (exc, w') \<Rightarrow> ([ExcelErrorBox exc], w')
            | Inr w' \<Rightarrow>
                let (msgs, w'') = reset_invoice B w' in (PrintedBox # msgs, w'')))"

section \<open>Auxiliary notions\<close>

text \<open>
  Every record is filed under the normalized form of its own name; and the key under
  which a row is filed, when it is not skipped.
\<close>

definition keys_normalized :: "'f store \<Rightarrow> bool" where
  "keys_normalized st = (\<forall>k r. records st k = Some r \<longrightarrow> normalize_name (r_name r) = k)"

definition row_key :: "'f builtins \<Rightarrow> 'f row \<Rightarrow> string option" where
  "row_key B rw = (case row_record B rw of Inr (Some (k, r)) \<Rightarrow> Some k | _ \<Rightarrow> None)"

text \<open>
  The ledger invariant of the main window: for every record of the store, the quantity
  reserved under its name is at most its stock (or zero, for a negative stock). And the
  record the window's store holds for a name.
\<close>

definition ledger_within_stock :: "'f window \<Rightarrow> bool" where
  "ledger_within_stock w =
     (case store w of
        None \<Rightarrow> True
      | Some st \<Rightarrow> \<forall>k rc. records st k = Some rc \<longrightarrow> reserved w (r_name rc) \<le> max (r_stock rc) 0)"

definition record_of :: "'f window \<Rightarrow> string \<Rightarrow> 'f med option" where
  "record_of w name = (case store w of None \<Rightarrow> None | Some st \<Rightarrow> get_medicine st name)"

text \<open>
  The quantity added under a name by a list of adds, and the quantity of the invoice's
  first line with a name.
\<close>

definition added_for :: "string \<Rightarrow> 'f invoice_item list \<Rightarrow> int" where
  "added_for n adds = sum_list (map qty (filter (\<lambda>i. i_name i = n) adds))"

definition line_qty :: "'f invoice_item list \<Rightarrow> string \<Rightarrow> int option" where
  "line_qty items n = map_option qty (find (\<lambda>i. i_name i = n) items)"




text \<open>
  The invoice invariant of the main window: the lines have different names, and every
  name is the name of a record of the store.
\<close>

definition names_from_store :: "'f window \<Rightarrow> bool" where
  "names_from_store w =
     (case store w of
        None \<Rightarrow> invoice w = []
      | Some st \<Rightarrow> distinct (map i_name (invoice w)) \<and>
          (\<forall>n \<in> set (map i_name (invoice w)). \<exists>k rc. records st k = Some rc \<and> r_name rc = n))"

section \<open>Example data\<close>

text \<open>
  An instance of the builtins, for floats with an integral value (such as \<open>5.0\<close>) and
  strings of decimal digits, and a workbook of three rows: the second has a blank
  stock and a price that is not a number, and spaces around its name.
\<close>

definition digits_int :: "string \<Rightarrow> int option" where
  "digits_int s =
     (if s \<noteq> [] \<and> list_all (\<lambda>c. 48 \<le> (of_char c :: nat) \<and> (of_char c :: nat) \<le> 57) s
      then Some (foldl (\<lambda>a c. 10 * a + (int (of_char c) - 48)) 0 s)
      else None)"

definition example_builtins :: "int builtins" where
  "example_builtins =
     \<lparr>int_of_str = digits_int, int_of_float = (\<lambda>x. Inr x),
      float_of_str = digits_int, float_of_int = (\<lambda>i. Inr i),
      str_of_float = (\<lambda>x. str_int x @ ''.0''), float_truthy = (\<lambda>x. x \<noteq> 0),
      float_zero = 0\<rparr>"

definition example_file :: "int row list" where
  "example_file =
     [\<lparr>name_cell = CStr ''Aspirin'', price_cell = CFloat 5, stock_cell = CInt 10,
       mg_cell = CStr ''500mg'', rack_cell = CStr ''A1'', actual_price_cell = CNone\<rparr>,
      \<lparr>name_cell = CStr '' Panadol '', price_cell = CStr ''n/a'', stock_cell = CNone,
       mg_cell = CNone, rack_cell = CInt 3, actual_price_cell = CStr []\<rparr>,
      \<lparr>name_cell = CStr ''Brufen'', price_cell = CInt 12, stock_cell = CStr ''7'',
       mg_cell = CStr ''400mg'', rack_cell = CStr ''B2'', actual_price_cell = CFloat 11\<rparr>]"



definition example_aspirin :: "int med" where
  "example_aspirin = \<lparr>r_name = ''Aspirin'', r_mg = ''500mg'', r_rack = ''A1'', r_stock = 10, r_price = Some 5\<rparr>"

definition example_panadol :: "int med" where
  "example_panadol = \<lparr>r_name = '' Panadol '', r_mg = [], r_rack = ''3'', r_stock = 0, r_price = Some 0\<rparr>"

definition example_brufen :: "int med" where
  "example_brufen = \<lparr>r_name = ''Brufen'', r_mg = ''400mg'', r_rack = ''B2'', r_stock = 7, r_price = Some 11\<rparr>"

definition example_store :: "int store" where
  "example_store =
     \<lparr>sheet = example_file,
      names = [''Aspirin'', '' Panadol '', ''Brufen''],
      records = [''aspirin'' \<mapsto> example_aspirin, ''panadol'' \<mapsto> example_panadol,
                 ''brufen'' \<mapsto> example_brufen],
      row_refs = [''aspirin'' \<mapsto> \<lparr>row_index = 2, stock_cell_ref = 2\<rparr>,
                  ''panadol'' \<mapsto> \<lparr>row_index = 3, stock_cell_ref = 3\<rparr>,
                  ''brufen'' \<mapsto> \<lparr>row_index = 4, stock_cell_ref = 4\<rparr>]\<rparr>"

text \<open>
  The main window on the example workbook; a cart with six units of the first medicine;
  and the window after a checkout of that cart in which the printer worked and writing
  the workbook file failed. The second window on the same workbook, with the same cart.
\<close>

definition example_window :: "int window" where
  "example_window = snd (init_window example_builtins example_file)"

definition example_cart :: "int window" where
  "example_cart = run example_window [Select ''aspirin'', Add 6]"

definition example_unsaved :: "int window" where
  "example_unsaved = snd (on_print example_builtins True False example_cart)"

definition example_window2 :: "int window2" where
  "example_window2 =
     snd (load_inventory example_builtins
       \<lparr>repo_file = example_file, repo = None, medicines_by_name = Map.empty,
        invoice_items = [], invoice_quantities = Map.empty, selected_medicine = None,
        shown = None\<rparr>)"

definition example_cart2 :: "int window2" where
  "example_cart2 = snd (on_add_clicked (on_medicine_selected example_window2 ''Aspirin'') 6)"

text \<open>An invoice item and a medicine with a given name, for the examples.\<close>

definition example_item :: "string \<Rightarrow> int \<Rightarrow> int invoice_item" where
  "example_item n q = \<lparr>i_name = n, i_mg = ''500mg'', i_rack = ''A1'', unit_price = Some 5, qty = q\<rparr>"

definition example_medicine :: "string \<Rightarrow> int medicine" where
  "example_medicine n = \<lparr>m_name = n, m_mg = ''500mg'', rack_number = ''A1'', m_stock = 100,
     m_price = Some 5, actual_price = None\<rparr>"

text \<open>
  An invoice of two units at the price \<open>0.15\<close>, the double nearest to 15/100; and an
  invoice with an infinite price, which \<open>_to_float\<close> produces for a price cell that
  holds the string \<open>"inf"\<close>.
\<close>

definition example_invoice :: "pyfloat invoice_item list" where
  "example_invoice =
     [\<lparr>i_name = ''Aspirin'', i_mg = ''500mg'', i_rack = ''A1'',
       unit_price = Some (round_double (15 / 100)), qty = 2\<rparr>]"

definition example_invoice_inf :: "pyfloat invoice_item list" where
  "example_invoice_inf =
     [\<lparr>i_name = ''Aspirin'', i_mg = ''500mg'', i_rack = ''A1'',
       unit_price = Some PosInf, qty = 1\<rparr>]"

section \<open>Reading the sheet: invariants\<close>

lemma row_record_key:
  "row_record B rw = Inr (Some (k, r)) \<Longrightarrow> k = normalize_name (r_name r)"
  by (auto simp: row_record_def Let_def split: if_splits sum.splits option.splits)

lemma read_row_Inr:
  "read_row B i rw st = Inr st' \<longleftrightarrow>
     (row_record B rw = Inr None \<and> st' = st) \<or>
     (\<exists>k r. row_record B rw = Inr (Some (k, r)) \<and>
        st' = st\<lparr>names := names st @ [r_name r], records := (records st)(k \<mapsto> r),
                 row_refs := (row_refs st)(k \<mapsto> \<lparr>row_index = i, stock_cell_ref = i\<rparr>)\<rparr>)"
  by (auto simp: read_row_def split: sum.splits option.splits)

lemma read_rows_from_Cons_Inr:
  "read_rows_from B i (rw # rws) st = Inr st' \<longleftrightarrow>
     (\<exists>st1. read_row B i rw st = Inr st1 \<and> read_rows_from B (Suc i) rws st1 = Inr st')"
  by (auto split: sum.splits)

lemma read_rows_from_invariant:
  assumes "read_rows_from B i rws st = Inr st'" and "P st"
    and step: "\<And>j rw s s'. read_row B j rw s = Inr s' \<Longrightarrow> P s \<Longrightarrow> P s'"
  shows "P st'"
  using assms(1,2)
proof (induction rws arbitrary: i st)
  case Nil
  then show ?case by simp
next
  case (Cons rw rws)
  from Cons.prems(1) obtain st1 where
    s1: "read_row B i rw st = Inr st1" and s2: "read_rows_from B (Suc i) rws st1 = Inr st'"
    unfolding read_rows_from_Cons_Inr by blast
  show ?case by (rule Cons.IH[OF s2 step[OF s1 Cons.prems(2)]])
qed

lemma read_row_keys:
  "read_row B i rw st = Inr st' \<Longrightarrow> keys_normalized st \<Longrightarrow> keys_normalized st'"
  unfolding keys_normalized_def read_row_Inr
  by (auto split: if_splits dest: row_record_key)

lemma read_rows_from_keys:
  "read_rows_from B i rws st = Inr st' \<Longrightarrow> keys_normalized st \<Longrightarrow> keys_normalized st'"
  by (erule read_rows_from_invariant, assumption) (rule read_row_keys)

lemma synced_keys: "synced B st \<Longrightarrow> keys_normalized st"
  unfolding synced_def read_rows_def
  by (erule read_rows_from_keys) (simp add: keys_normalized_def)

lemma read_row_dom:
  "read_row B i rw st = Inr st' \<Longrightarrow> dom (row_refs st) = dom (records st) \<Longrightarrow>
     dom (row_refs st') = dom (records st')"
  unfolding read_row_Inr by (elim disjE exE conjE) simp_all

lemma read_rows_from_dom:
  "read_rows_from B i rws st = Inr st' \<Longrightarrow> dom (row_refs st) = dom (records st) \<Longrightarrow>
     dom (row_refs st') = dom (records st')"
  by (erule read_rows_from_invariant[where P="\<lambda>s. dom (row_refs s) = dom (records s)"], assumption)
     (rule read_row_dom)

lemma synced_dom: "synced B st \<Longrightarrow> dom (row_refs st) = dom (records st)"
  unfolding synced_def read_rows_def
  by (erule read_rows_from_dom) simp

lemma read_row_sheet:
  "read_row B i rw st = Inr st' \<Longrightarrow> read_row B i rw (st\<lparr>sheet := sh\<rparr>) = Inr (st'\<lparr>sheet := sh\<rparr>)"
  unfolding read_row_Inr by auto

lemma read_rows_from_sheet:
  "read_rows_from B i rws st = Inr st' \<Longrightarrow>
     read_rows_from B i rws (st\<lparr>sheet := sh\<rparr>) = Inr (st'\<lparr>sheet := sh\<rparr>)"
proof (induction rws arbitrary: i st)
  case Nil
  then show ?case by simp
next
  case (Cons rw rws)
  from Cons.prems(1) obtain st1 where
    s1: "read_row B i rw st = Inr st1" and s2: "read_rows_from B (Suc i) rws st1 = Inr st'"
    unfolding read_rows_from_Cons_Inr by blast
  show ?case using read_row_sheet[OF s1, of sh] Cons.IH[OF s2] by simp
qed

lemma read_row_same_sheet: "read_row B i rw st = Inr st' \<Longrightarrow> sheet st' = sheet st"
  unfolding read_row_Inr by auto

lemma read_rows_from_same_sheet: "read_rows_from B i rws st = Inr st' \<Longrightarrow> sheet st' = sheet st"
  by (erule read_rows_from_invariant[where P="\<lambda>s. sheet s = sheet st"], simp)
     (simp add: read_row_same_sheet)

lemma read_row_frame:
  "read_row B i rw st = Inr st' \<Longrightarrow> row_key B rw \<noteq> Some k \<Longrightarrow>
     read_row B i rw (st\<lparr>records := (records st)(k \<mapsto> v)\<rparr>) = Inr (st'\<lparr>records := (records st')(k \<mapsto> v)\<rparr>)
     \<and> records st' k = records st k \<and> row_refs st' k = row_refs st k"
  unfolding read_row_Inr by (auto simp: row_key_def fun_upd_twist)

lemma read_rows_from_frame:
  "read_rows_from B i rws st = Inr st' \<Longrightarrow> \<forall>rw\<in>set rws. row_key B rw \<noteq> Some k \<Longrightarrow>
     read_rows_from B i rws (st\<lparr>records := (records st)(k \<mapsto> v)\<rparr>) = Inr (st'\<lparr>records := (records st')(k \<mapsto> v)\<rparr>)
     \<and> records st' k = records st k \<and> row_refs st' k = row_refs st k"
proof (induction rws arbitrary: i st v)
  case Nil
  then show ?case by simp
next
  case (Cons rw rws)
  from Cons.prems(1) obtain st1 where
    s1: "read_row B i rw st = Inr st1" and s2: "read_rows_from B (Suc i) rws st1 = Inr st'"
    unfolding read_rows_from_Cons_Inr by blast
  from Cons.prems(2) have k1: "row_key B rw \<noteq> Some k" and k2: "\<forall>rw\<in>set rws. row_key B rw \<noteq> Some k"
    by simp_all
  have f1: "read_row B i rw (st\<lparr>records := (records st)(k \<mapsto> v)\<rparr>) = Inr (st1\<lparr>records := (records st1)(k \<mapsto> v)\<rparr>)"
    and g1: "records st1 k = records st k" "row_refs st1 k = row_refs st k"
    using read_row_frame[OF s1 k1] by blast+
  have f2: "read_rows_from B (Suc i) rws (st1\<lparr>records := (records st1)(k \<mapsto> v)\<rparr>) = Inr (st'\<lparr>records := (records st')(k \<mapsto> v)\<rparr>)"
    and g2: "records st' k = records st1 k" "row_refs st' k = row_refs st1 k"
    using Cons.IH[OF s2 k2] by blast+
  have c: "read_rows_from B i (rw # rws) (st\<lparr>records := (records st)(k \<mapsto> v)\<rparr>) = Inr (st'\<lparr>records := (records st')(k \<mapsto> v)\<rparr>)"
    unfolding read_rows_from_Cons_Inr using f1 f2 by blast
  have e1: "records st' k = records st k" using g1(1) g2(1) by (rule_tac trans)
  have e2: "row_refs st' k = row_refs st k" using g1(2) g2(2) by (rule_tac trans)
  show ?case using c e1 e2 by blast
qed


lemma read_row_ref_mono:
  "read_row B j rw st = Inr st' \<Longrightarrow> row_refs st k = Some ref0 \<Longrightarrow> m \<le> stock_cell_ref ref0 \<Longrightarrow>
     m \<le> j \<Longrightarrow> \<exists>ref'. row_refs st' k = Some ref' \<and> m \<le> stock_cell_ref ref'"
  unfolding read_row_Inr by (elim disjE exE conjE) simp_all

lemma read_rows_from_ref_mono:
  "read_rows_from B j rws st = Inr st' \<Longrightarrow> row_refs st k = Some ref0 \<Longrightarrow> m \<le> stock_cell_ref ref0 \<Longrightarrow>
     m \<le> j \<Longrightarrow> \<exists>ref'. row_refs st' k = Some ref' \<and> m \<le> stock_cell_ref ref'"
proof (induction rws arbitrary: j st ref0)
  case Nil
  then show ?case by simp
next
  case (Cons rw rws)
  from Cons.prems(1) obtain st1 where
    s1: "read_row B j rw st = Inr st1" and s2: "read_rows_from B (Suc j) rws st1 = Inr st'"
    unfolding read_rows_from_Cons_Inr by blast
  from read_row_ref_mono[OF s1 Cons.prems(2,3,4)] obtain ref1 where
    r1: "row_refs st1 k = Some ref1" "m \<le> stock_cell_ref ref1" by blast
  from Cons.prems(4) have "m \<le> Suc j" by simp
  from Cons.IH[OF s2 r1 this] show ?case .
qed

lemma read_row_has_key:
  "read_row B j rw st = Inr st' \<Longrightarrow> row_key B rw = Some k \<Longrightarrow>
     \<exists>r. row_record B rw = Inr (Some (k, r)) \<and> records st' k = Some r \<and>
         row_refs st' k = Some \<lparr>row_index = j, stock_cell_ref = j\<rparr>"
  unfolding read_row_Inr by (auto simp: row_key_def)

lemma read_rows_from_old_ref:
  "read_rows_from B j rws st = Inr st' \<Longrightarrow> row_refs st' k = Some ref \<Longrightarrow> stock_cell_ref ref < j \<Longrightarrow>
     \<forall>rw\<in>set rws. row_key B rw \<noteq> Some k"
proof (induction rws arbitrary: j st)
  case Nil
  then show ?case by simp
next
  case (Cons rw rws)
  from Cons.prems(1) obtain st1 where
    s1: "read_row B j rw st = Inr st1" and s2: "read_rows_from B (Suc j) rws st1 = Inr st'"
    unfolding read_rows_from_Cons_Inr by blast
  have "row_key B rw \<noteq> Some k"
  proof
    assume "row_key B rw = Some k"
    from read_row_has_key[OF s1 this]
    have "row_refs st1 k = Some \<lparr>row_index = j, stock_cell_ref = j\<rparr>" by blast
    from read_rows_from_ref_mono[OF s2 this, of j]
    obtain ref' where "row_refs st' k = Some ref'" "j \<le> stock_cell_ref ref'" by auto
    with Cons.prems(2,3) show False by simp
  qed
  moreover have "\<forall>rw\<in>set rws. row_key B rw \<noteq> Some k"
    using Cons.IH[OF s2 Cons.prems(2)] Cons.prems(3) by simp
  ultimately show ?case by simp
qed

lemma read_row_refs_below:
  "read_row B j rw st = Inr st' \<Longrightarrow> \<forall>k' ref'. row_refs st k' = Some ref' \<longrightarrow> stock_cell_ref ref' < j \<Longrightarrow>
     \<forall>k' ref'. row_refs st' k' = Some ref' \<longrightarrow> stock_cell_ref ref' < Suc j"
  unfolding read_row_Inr by (elim disjE exE conjE) (auto simp: less_Suc_eq split: if_splits)

lemma row_record_set_stock:
  "row_record B rw = Inr (Some (k, r)) \<Longrightarrow>
     row_record B (rw\<lparr>stock_cell := CInt n\<rparr>) = Inr (Some (k, r\<lparr>r_stock := n\<rparr>))"
  by (auto simp: row_record_def to_int_def is_blank_def Let_def split: if_splits sum.splits option.splits)

lemma read_rows_from_set_stock:
  "read_rows_from B i rws st = Inr st' \<Longrightarrow> row_refs st' k = Some ref \<Longrightarrow> records st' k = Some r \<Longrightarrow>
     \<forall>k' ref'. row_refs st k' = Some ref' \<longrightarrow> stock_cell_ref ref' < i \<Longrightarrow>
     i \<le> stock_cell_ref ref \<Longrightarrow>
     read_rows_from B i (rws[stock_cell_ref ref - i := (rws ! (stock_cell_ref ref - i))\<lparr>stock_cell := CInt n\<rparr>]) st
       = Inr (st'\<lparr>records := (records st')(k \<mapsto> r\<lparr>r_stock := n\<rparr>)\<rparr>)"
proof (induction rws arbitrary: i st)
  case Nil
  from Nil.prems(1) have "st' = st" by simp
  with Nil.prems(2,4,5) show ?case by fastforce
next
  case (Cons rw rws)
  from Cons.prems(1) obtain st1 where
    s1: "read_row B i rw st = Inr st1" and s2: "read_rows_from B (Suc i) rws st1 = Inr st'"
    unfolding read_rows_from_Cons_Inr by blast
  show ?case
  proof (cases "stock_cell_ref ref = i")
    case True
    have nokey: "\<forall>rw\<in>set rws. row_key B rw \<noteq> Some k"
      using read_rows_from_old_ref[OF s2 Cons.prems(2)] True by simp
    have fr: "records st' k = records st1 k" "row_refs st' k = row_refs st1 k"
      using read_rows_from_frame[OF s2 nokey] by blast+
    have ref1: "row_refs st1 k = Some ref" and rec1: "records st1 k = Some r"
      using fr Cons.prems(2,3) by simp_all
    have "row_refs st k \<noteq> Some ref" using Cons.prems(4) True by auto
    with s1 ref1 rec1 have rr: "row_record B rw = Inr (Some (k, r))"
      and st1: "st1 = st\<lparr>names := names st @ [r_name r], records := (records st)(k \<mapsto> r),
                 row_refs := (row_refs st)(k \<mapsto> \<lparr>row_index = i, stock_cell_ref = i\<rparr>)\<rparr>"
      unfolding read_row_Inr by (auto split: if_splits)
    have "read_row B i (rw\<lparr>stock_cell := CInt n\<rparr>) st = Inr (st1\<lparr>records := (records st1)(k \<mapsto> r\<lparr>r_stock := n\<rparr>)\<rparr>)"
      unfolding read_row_Inr using row_record_set_stock[OF rr, of n] st1 by simp
    moreover have "read_rows_from B (Suc i) rws (st1\<lparr>records := (records st1)(k \<mapsto> r\<lparr>r_stock := n\<rparr>)\<rparr>)
        = Inr (st'\<lparr>records := (records st')(k \<mapsto> r\<lparr>r_stock := n\<rparr>)\<rparr>)"
      using read_rows_from_frame[OF s2 nokey] by blast
    ultimately have "read_rows_from B i (rw\<lparr>stock_cell := CInt n\<rparr> # rws) st
        = Inr (st'\<lparr>records := (records st')(k \<mapsto> r\<lparr>r_stock := n\<rparr>)\<rparr>)"
      unfolding read_rows_from_Cons_Inr by blast
    moreover have "stock_cell_ref ref - i = 0" using True by simp
    ultimately show ?thesis by (simp only: list_update_code nth_Cons_0)
  next
    case False
    with Cons.prems(5) have lt: "Suc i \<le> stock_cell_ref ref" by simp
    then obtain d where d: "stock_cell_ref ref - i = Suc d" "stock_cell_ref ref - Suc i = d"
      by (metis Suc_diff_le diff_Suc_Suc)
    have "read_rows_from B (Suc i) (rws[stock_cell_ref ref - Suc i := (rws ! (stock_cell_ref ref - Suc i))\<lparr>stock_cell := CInt n\<rparr>]) st1
       = Inr (st'\<lparr>records := (records st')(k \<mapsto> r\<lparr>r_stock := n\<rparr>)\<rparr>)"
      by (rule Cons.IH[OF s2 Cons.prems(2,3) read_row_refs_below[OF s1 Cons.prems(4)] lt])
    then have "read_rows_from B i (rw # rws[d := (rws ! d)\<lparr>stock_cell := CInt n\<rparr>]) st
       = Inr (st'\<lparr>records := (records st')(k \<mapsto> r\<lparr>r_stock := n\<rparr>)\<rparr>)"
      unfolding read_rows_from_Cons_Inr using s1 d by blast
    then show ?thesis by (simp only: d list_update_code nth_Cons_Suc)
  qed
qed

lemma read_rows_from_new_ref:
  "read_rows_from B i rws st = Inr st' \<Longrightarrow> row_refs st' k = Some ref \<Longrightarrow>
     row_refs st k = Some ref \<or> i \<le> stock_cell_ref ref"
proof (induction rws arbitrary: i st)
  case Nil
  then show ?case by simp
next
  case (Cons rw rws)
  from Cons.prems(1) obtain st1 where
    s1: "read_row B i rw st = Inr st1" and s2: "read_rows_from B (Suc i) rws st1 = Inr st'"
    unfolding read_rows_from_Cons_Inr by blast
  from Cons.IH[OF s2 Cons.prems(2)] have "row_refs st1 k = Some ref \<or> Suc i \<le> stock_cell_ref ref" .
  then show ?case
  proof
    assume "row_refs st1 k = Some ref"
    with s1 show ?thesis unfolding read_row_Inr by (auto split: if_splits)
  next
    assume "Suc i \<le> stock_cell_ref ref"
    then show ?thesis by simp
  qed
qed

lemma load_synced: "load B file = Inr st \<Longrightarrow> synced B st"
proof -
  assume l: "load B file = Inr st"
  let ?e = "\<lparr>sheet = file, names = [], records = Map.empty, row_refs = Map.empty\<rparr> :: 'a store"
  from l have r: "read_rows_from B 2 file ?e = Inr st"
    by (simp add: load_def read_rows_def)
  from read_rows_from_same_sheet[OF r] have sh: "sheet st = file" by simp
  have eq: "st\<lparr>names := [], records := Map.empty, row_refs := Map.empty\<rparr> = ?e"
    using sh by simp
  show "synced B st" unfolding synced_def read_rows_def eq sh by (rule r)
qed

lemma synced_load: "synced B st \<Longrightarrow> load B (save st) = Inr st"
proof -
  assume "synced B st"
  then have r: "read_rows_from B 2 (sheet st) (st\<lparr>names := [], records := Map.empty, row_refs := Map.empty\<rparr>) = Inr st"
    by (simp add: synced_def read_rows_def)
  have "st\<lparr>names := [], records := Map.empty, row_refs := Map.empty\<rparr>
      = \<lparr>sheet = sheet st, names = [], records = Map.empty, row_refs = Map.empty\<rparr>"
    by simp
  with r show ?thesis by (simp add: load_def save_def read_rows_def)
qed

lemma reduce_stock_Inr:
  "reduce_stock st name q = Inr st' \<longleftrightarrow>
     (0 < q \<and> (\<exists>record ref. records st (normalize_name name) = Some record \<and>
        row_refs st (normalize_name name) = Some ref \<and> q \<le> r_stock record \<and>
        st' = st\<lparr>records := (records st)(normalize_name name \<mapsto> record\<lparr>r_stock := r_stock record - q\<rparr>),
                 sheet := set_stock_cell (sheet st) (stock_cell_ref ref) (CInt (r_stock record - q))\<rparr>))"
  by (auto simp: reduce_stock_def Let_def split: option.splits if_splits)

lemma reduce_stock_synced:
  assumes "synced B st" and "reduce_stock st name q = Inr st'"
  shows "synced B st'"
proof -
  let ?k = "normalize_name name"
  from assms(2) obtain rc rf where
    rec: "records st ?k = Some rc" and ref: "row_refs st ?k = Some rf"
    and st': "st' = st\<lparr>records := (records st)(?k \<mapsto> rc\<lparr>r_stock := r_stock rc - q\<rparr>),
                 sheet := set_stock_cell (sheet st) (stock_cell_ref rf) (CInt (r_stock rc - q))\<rparr>"
    unfolding reduce_stock_Inr by blast
  let ?e = "st\<lparr>names := [], records := Map.empty, row_refs := Map.empty\<rparr>"
  let ?sh = "set_stock_cell (sheet st) (stock_cell_ref rf) (CInt (r_stock rc - q))"
  from assms(1) have r: "read_rows_from B 2 (sheet st) ?e = Inr st"
    by (simp add: synced_def read_rows_def)
  have ge: "2 \<le> stock_cell_ref rf"
    using read_rows_from_new_ref[OF r ref] by simp
  have "read_rows_from B 2 ?sh ?e = Inr (st\<lparr>records := (records st)(?k \<mapsto> rc\<lparr>r_stock := r_stock rc - q\<rparr>)\<rparr>)"
    unfolding set_stock_cell_def
    by (rule read_rows_from_set_stock[OF r ref rec _ ge]) simp
  from read_rows_from_sheet[OF this, of ?sh]
  have "read_rows_from B 2 ?sh (?e\<lparr>sheet := ?sh\<rparr>) = Inr st'"
    using st' by simp
  then have fin: "read_rows_from B 2 ?sh (?e\<lparr>sheet := ?sh\<rparr>) = Inr st'" .
  have eq: "st'\<lparr>names := [], records := Map.empty, row_refs := Map.empty\<rparr> = ?e\<lparr>sheet := ?sh\<rparr>"
    using st' by simp
  have sh: "sheet st' = ?sh" using st' by simp
  show ?thesis unfolding synced_def read_rows_def eq sh by (rule fin)
qed

section \<open>The example store\<close>

lemma example_values:
  "normalize_name ''Aspirin'' = ''aspirin''"
  "normalize_name '' Panadol '' = ''panadol''"
  "normalize_name ''Brufen'' = ''brufen''"
  "normalize_name ''  ASPIRIN '' = ''aspirin''"
  "normalize_name ''aspirin'' = ''aspirin''"
  "normalize_name ''Nurofen'' = ''nurofen''"
  "normalize_name ''brufen'' = ''brufen''"
  "str_int 3 = ''3''"
  "digits_int ''7'' = Some 7"
  "digits_int ''n/a'' = None"
  by code_simp+

lemma example_padded_values:
  "normalize_name ''Panadol'' = ''panadol''"
  "py_lower (py_strip ''Panadol'') = ''panadol''"
  "py_lower '' Panadol '' = '' panadol ''"
  by code_simp+

text \<open>
  Characters above 127: a no-break space and a next-line character are stripped, a
  capital E with acute accent (201) is lower-cased to 233, and the multiplication sign
  (215) and the sharp s (223) are left as they are.
\<close>

lemma latin1_values:
  "py_strip [char_of (160 :: nat), CHR ''a'', char_of (133 :: nat)] = ''a''"
  "py_lower [char_of (201 :: nat), char_of (215 :: nat), char_of (223 :: nat)]
     = [char_of (233 :: nat), char_of (215 :: nat), char_of (223 :: nat)]"
  by code_simp+

lemma example_rows:
  "row_record example_builtins (example_file ! 0) = Inr (Some (''aspirin'', example_aspirin))"
  "row_record example_builtins (example_file ! 1) = Inr (Some (''panadol'', example_panadol))"
  "row_record example_builtins (example_file ! 2) = Inr (Some (''brufen'', example_brufen))"
  by (simp_all add: example_file_def row_record_def example_builtins_def to_int_def to_float_def
        is_blank_def or_empty_def example_values example_aspirin_def example_panadol_def
        example_brufen_def)

lemma example_load: "load example_builtins example_file = Inr example_store"
proof -
  have f: "example_file = [example_file ! 0, example_file ! 1, example_file ! 2]"
    by (simp add: example_file_def)
  show ?thesis
    unfolding load_def read_rows_def
    apply (subst f)
    apply (simp add: read_row_def example_rows example_store_def
        example_aspirin_def example_panadol_def example_brufen_def del: One_nat_def)
    done
qed

lemma example_synced: "synced example_builtins example_store"
  by (rule load_synced[OF example_load])

section \<open>Loading with unreadable cells\<close>













section \<open>The main window: what the add button does\<close>

lemma reduce_stock_success:
  assumes "synced B st" and "get_medicine st name = Some rc" and "0 < q" and "q \<le> r_stock rc"
  shows "\<exists>rf. row_refs st (normalize_name name) = Some rf \<and>
     reduce_stock st name q =
       Inr (st\<lparr>records := (records st)(normalize_name name \<mapsto> rc\<lparr>r_stock := r_stock rc - q\<rparr>),
              sheet := set_stock_cell (sheet st) (stock_cell_ref rf) (CInt (r_stock rc - q))\<rparr>)"
proof -
  from assms(2) have rec: "records st (normalize_name name) = Some rc" by (simp add: get_medicine_def)
  then have "normalize_name name \<in> dom (row_refs st)" using synced_dom[OF assms(1)] by auto
  then obtain rf where rf: "row_refs st (normalize_name name) = Some rf" by auto
  then show ?thesis unfolding reduce_stock_Inr using assms(3,4) rec by simp
qed

lemma get_medicine_own_name:
  "keys_normalized st \<Longrightarrow> get_medicine st n = Some rc \<Longrightarrow> get_medicine st (r_name rc) = Some rc"
  by (simp add: keys_normalized_def get_medicine_def)

lemma same_name_same_record:
  "keys_normalized st \<Longrightarrow> records st k = Some rc \<Longrightarrow> records st k' = Some rc' \<Longrightarrow>
     r_name rc = r_name rc' \<Longrightarrow> rc = rc'"
  by (metis keys_normalized_def option.inject)

lemma select_medicine_keeps:
  "store (select_medicine w n) = store w" "added_qty (select_medicine w n) = added_qty w"
  "invoice (select_medicine w n) = invoice w" "disk (select_medicine w n) = disk w"
  by (simp_all add: select_medicine_def clear_selection_def split: option.splits)

lemma reserved_select [simp]: "reserved (select_medicine w n) m = reserved w m"
  by (simp add: reserved_def select_medicine_keeps)

lemma reserved_added_qty [simp]:
  "reserved (w\<lparr>added_qty := m\<rparr>) n = (case m n of None \<Rightarrow> 0 | Some used \<Rightarrow> used)"
  "reserved (w\<lparr>invoice := i\<rparr>) n = reserved w n"
  by (simp_all add: reserved_def)

lemma add_to_invoice_selected:
  assumes "store w = Some st" and "keys_normalized st" and "selected_name w = Some sel"
    and "sel \<noteq> []" and "get_medicine st sel = Some rc"
  shows "add_to_invoice w q =
     (let available = max (r_stock rc - reserved w (r_name rc)) 0 in
      if q > available then ([InsufficientStockWarning available (r_name rc)], w)
      else ([], select_medicine
             (w\<lparr>invoice := add_item (invoice w)
                    \<lparr>i_name = r_name rc, i_mg = r_mg rc, i_rack = r_rack rc,
                     unit_price = r_price rc, qty = q\<rparr>,
                 added_qty := (added_qty w)(r_name rc \<mapsto> reserved w (r_name rc) + q)\<rparr>)
             (r_name rc)))"
proof -
  have "available_stock w (r_name rc) = max (r_stock rc - reserved w (r_name rc)) 0"
    using assms(1) get_medicine_own_name[OF assms(2,5)] by (simp add: available_stock_def)
  then show ?thesis
    using assms by (simp add: add_to_invoice_def Let_def reserved_def)
qed

lemma add_to_invoice_cases:
  assumes "store w = Some st" and "keys_normalized st"
  shows "snd (add_to_invoice w q) = w \<or>
     (\<exists>k rc. records st k = Some rc \<and> q \<le> max (r_stock rc - reserved w (r_name rc)) 0 \<and>
        snd (add_to_invoice w q) = select_medicine
             (w\<lparr>invoice := add_item (invoice w)
                    \<lparr>i_name = r_name rc, i_mg = r_mg rc, i_rack = r_rack rc,
                     unit_price = r_price rc, qty = q\<rparr>,
                 added_qty := (added_qty w)(r_name rc \<mapsto> reserved w (r_name rc) + q)\<rparr>)
             (r_name rc))"
proof (cases "selected_name w")
  case None
  then show ?thesis using assms(1) by (simp add: add_to_invoice_def)
next
  case (Some sel)
  show ?thesis
  proof (cases "sel = [] \<or> get_medicine st sel = None")
    case True
    then show ?thesis using assms(1) Some by (auto simp: add_to_invoice_def)
  next
    case False
    then obtain rc where rc: "get_medicine st sel = Some rc" and ne: "sel \<noteq> []" by auto
    have r: "records st (normalize_name sel) = Some rc" using rc by (simp add: get_medicine_def)
    show ?thesis
    proof (cases "q > max (r_stock rc - reserved w (r_name rc)) 0")
      case True
      then have "snd (add_to_invoice w q) = w"
        unfolding add_to_invoice_selected[OF assms Some ne rc] Let_def
        by (simp only: if_True snd_conv)
      then show ?thesis by (rule disjI1)
    next
      case False
      then have "snd (add_to_invoice w q) = select_medicine
             (w\<lparr>invoice := add_item (invoice w)
                    \<lparr>i_name = r_name rc, i_mg = r_mg rc, i_rack = r_rack rc,
                     unit_price = r_price rc, qty = q\<rparr>,
                 added_qty := (added_qty w)(r_name rc \<mapsto> reserved w (r_name rc) + q)\<rparr>)
             (r_name rc)"
        unfolding add_to_invoice_selected[OF assms Some ne rc] Let_def
        by (simp only: if_False snd_conv)
      moreover have "q \<le> max (r_stock rc - reserved w (r_name rc)) 0"
        using False by (simp only: not_less)
      ultimately show ?thesis using r by blast
    qed
  qed
qed

lemma do_action_store: "store (do_action w a) = store w"
proof (cases a)
  case (Select n)
  then show ?thesis by (simp add: select_medicine_keeps)
next
  case (Add q)
  then show ?thesis
    by (auto simp: add_to_invoice_def Let_def select_medicine_keeps split: option.splits)
qed

lemma run_store: "store (run w acts) = store w"
  by (induction acts arbitrary: w) (simp_all add: do_action_store)

lemma ledger_within_stock_step:
  assumes "store w = Some st" and "keys_normalized st" and "ledger_within_stock w"
  shows "ledger_within_stock (do_action w a)"
proof (cases a)
  case (Select n)
  then show ?thesis using assms(1,3) by (simp add: ledger_within_stock_def select_medicine_keeps)
next
  case (Add q)
  from add_to_invoice_cases[OF assms(1,2), of q]
  show ?thesis
  proof (elim disjE exE conjE)
    assume "snd (add_to_invoice w q) = w"
    then show ?thesis using Add assms(3) by simp
  next
    fix k rc
    assume rc: "records st k = Some rc"
      and le: "q \<le> max (r_stock rc - reserved w (r_name rc)) 0"
      and eq: "snd (add_to_invoice w q) = select_medicine
             (w\<lparr>invoice := add_item (invoice w)
                    \<lparr>i_name = r_name rc, i_mg = r_mg rc, i_rack = r_rack rc,
                     unit_price = r_price rc, qty = q\<rparr>,
                 added_qty := (added_qty w)(r_name rc \<mapsto> reserved w (r_name rc) + q)\<rparr>)
             (r_name rc)"
    have inv: "\<And>k' rc'. records st k' = Some rc' \<Longrightarrow> reserved w (r_name rc') \<le> max (r_stock rc') 0"
      using assms(1,3) by (simp add: ledger_within_stock_def)
    have "\<And>k' rc'. records st k' = Some rc' \<Longrightarrow>
        reserved (do_action w a) (r_name rc') \<le> max (r_stock rc') 0"
    proof -
      fix k' rc'
      assume rc': "records st k' = Some rc'"
      show "reserved (do_action w a) (r_name rc') \<le> max (r_stock rc') 0"
      proof (cases "r_name rc' = r_name rc")
        case True
        with same_name_same_record[OF assms(2) rc' rc] have "rc' = rc" by simp
        then show ?thesis using Add eq le inv[OF rc] by simp
      next
        case False
        then have "reserved (do_action w a) (r_name rc') = reserved w (r_name rc')"
          using Add eq by (simp add: reserved_def[of w])
        then show ?thesis using inv[OF rc'] by simp
      qed
    qed
    then show ?thesis using assms(1) by (simp add: ledger_within_stock_def do_action_store)
  qed
qed

lemma ledger_within_stock_run:
  assumes "store w = Some st" and "keys_normalized st" and "ledger_within_stock w"
  shows "ledger_within_stock (run w acts)"
  using assms
proof (induction acts arbitrary: w)
  case Nil
  then show ?case by simp
next
  case (Cons a acts)
  have "store (do_action w a) = Some st" using Cons.prems(1) by (simp add: do_action_store)
  from Cons.IH[OF this Cons.prems(2) ledger_within_stock_step[OF Cons.prems]]
  show ?case by simp
qed




section \<open>Merging items\<close>

lemma add_item_names:
  "map i_name (add_item items item) =
     (if i_name item \<in> set (map i_name items) then map i_name items
      else map i_name items @ [i_name item])"
  by (induction items) auto

lemma add_item_distinct:
  "distinct (map i_name items) \<Longrightarrow> distinct (map i_name (add_item items item))"
  by (simp add: add_item_names)

lemma add_item_line_qty:
  "line_qty (add_item items item) n =
     (if i_name item = n
      then Some ((case line_qty items n of None \<Rightarrow> 0 | Some q \<Rightarrow> q) + qty item)
      else line_qty items n)"
  by (induction items) (auto simp: line_qty_def)

lemma foldl_add_item_distinct:
  "distinct (map i_name items) \<Longrightarrow> distinct (map i_name (foldl add_item items adds))"
  by (induction adds arbitrary: items) (simp_all add: add_item_distinct)

lemma added_for_none: "n \<notin> set (map i_name adds) \<Longrightarrow> added_for n adds = 0"
proof -
  assume "n \<notin> set (map i_name adds)"
  then have "filter (\<lambda>i. i_name i = n) adds = []" by (auto simp: filter_empty_conv)
  then show ?thesis by (simp add: added_for_def)
qed

lemma added_for_Cons:
  "added_for n (a # adds) = (if i_name a = n then qty a else 0) + added_for n adds"
  by (simp add: added_for_def)

lemma foldl_add_item_line_qty:
  "line_qty (foldl add_item items adds) n =
     (if n \<in> set (map i_name adds)
      then Some ((case line_qty items n of None \<Rightarrow> 0 | Some q \<Rightarrow> q) + added_for n adds)
      else line_qty items n)"
proof (induction adds arbitrary: items)
  case Nil
  then show ?case by simp
next
  case (Cons a adds)
  show ?case
    unfolding foldl_Cons Cons.IH add_item_line_qty
    by (auto simp: added_for_Cons added_for_none split: option.splits)
qed

lemma foldl_add_item_names:
  "set (map i_name (foldl add_item items adds)) = set (map i_name items) \<union> set (map i_name adds)"
proof (induction adds arbitrary: items)
  case Nil
  then show ?case by simp
next
  case (Cons a adds)
  show ?case unfolding foldl_Cons Cons.IH add_item_names by auto
qed

lemma add_item_append: "i_name item \<notin> set (map i_name items) \<Longrightarrow> add_item items item = items @ [item]"
  by (induction items) auto

lemma merge_step:
  "map (\<lambda>i. (i_name i, qty i)) items = map (\<lambda>l. (m_name (medicine l), quantity l)) ls \<Longrightarrow>
   i_name item = m_name m \<Longrightarrow> qty item = q \<Longrightarrow>
     map (\<lambda>i. (i_name i, qty i)) (add_item items item)
       = map (\<lambda>l. (m_name (medicine l), quantity l)) (merge_item ls m q)"
proof (induction items arbitrary: ls)
  case Nil
  then show ?case by simp
next
  case (Cons a items)
  from Cons.prems(1) obtain l ls' where ls: "ls = l # ls'" by (cases ls) auto
  with Cons.prems(1) have h: "i_name a = m_name (medicine l)" "qty a = quantity l"
    and t: "map (\<lambda>i. (i_name i, qty i)) items = map (\<lambda>l. (m_name (medicine l), quantity l)) ls'"
    by simp_all
  show ?case
  proof (cases "i_name a = i_name item")
    case True
    then show ?thesis
      unfolding ls using h t Cons.prems(2,3) by simp
  next
    case False
    then show ?thesis
      unfolding ls using h Cons.IH[OF t Cons.prems(2,3)] Cons.prems(2) by simp
  qed
qed

section \<open>The invoice of the main window\<close>

lemma on_print_unsaved_disk: "disk (snd (on_print B printer_valid False w)) = disk w"
  by (simp add: on_print_def split: option.splits sum.splits prod.splits)

lemma names_from_store_step:
  assumes "store w = Some st" and "keys_normalized st" and "names_from_store w"
  shows "names_from_store (do_action w a)"
proof (cases a)
  case (Select n)
  then show ?thesis using assms(1,3) by (simp add: names_from_store_def select_medicine_keeps)
next
  case (Add q)
  from add_to_invoice_cases[OF assms(1,2), of q]
  show ?thesis
  proof (elim disjE exE conjE)
    assume "snd (add_to_invoice w q) = w"
    then show ?thesis using Add assms(3) by simp
  next
    fix k rc
    assume rc: "records st k = Some rc"
      and eq: "snd (add_to_invoice w q) = select_medicine
             (w\<lparr>invoice := add_item (invoice w)
                    \<lparr>i_name = r_name rc, i_mg = r_mg rc, i_rack = r_rack rc,
                     unit_price = r_price rc, qty = q\<rparr>,
                 added_qty := (added_qty w)(r_name rc \<mapsto> reserved w (r_name rc) + q)\<rparr>)
             (r_name rc)"
    let ?item = "\<lparr>i_name = r_name rc, i_mg = r_mg rc, i_rack = r_rack rc,
                     unit_price = r_price rc, qty = q\<rparr>"
    have inv: "invoice (do_action w a) = add_item (invoice w) ?item"
      using Add eq by (simp add: select_medicine_keeps)
    have d: "distinct (map i_name (invoice w))"
      and f: "\<forall>n \<in> set (map i_name (invoice w)). \<exists>k rc. records st k = Some rc \<and> r_name rc = n"
      using assms(1,3) by (simp_all add: names_from_store_def)
    have "set (map i_name (add_item (invoice w) ?item)) \<subseteq> insert (r_name rc) (set (map i_name (invoice w)))"
      unfolding add_item_names by auto
    with f rc have "\<forall>n \<in> set (map i_name (add_item (invoice w) ?item)). \<exists>k rc. records st k = Some rc \<and> r_name rc = n"
      by blast
    moreover have "distinct (map i_name (add_item (invoice w) ?item))"
      using d by (rule add_item_distinct)
    ultimately show ?thesis
      using assms(1) inv by (simp add: names_from_store_def do_action_store)
  qed
qed

lemma names_from_store_run:
  assumes "store w = Some st" and "keys_normalized st" and "names_from_store w"
  shows "names_from_store (run w acts)"
  using assms
proof (induction acts arbitrary: w)
  case Nil
  then show ?case by simp
next
  case (Cons a acts)
  have "store (do_action w a) = Some st" using Cons.prems(1) by (simp add: do_action_store)
  from Cons.IH[OF this Cons.prems(2) names_from_store_step[OF Cons.prems]]
  show ?case by simp
qed

text \<open>
  In the main window the names of the lines are display names of the store, one for
  each normalized key, so the lines also differ up to case and surrounding whitespace.
\<close>

lemma window_lines_distinct_up_to_case:
  assumes "synced B st" and "store w = Some st" and "invoice w = []"
  shows "distinct (map (\<lambda>i. normalize_name (i_name i)) (invoice (run w acts)))"
proof -
  note kn = synced_keys[OF assms(1)]
  have "names_from_store w" using assms(2,3) by (simp add: names_from_store_def)
  from names_from_store_run[OF assms(2) kn this, of acts]
  have d: "distinct (map i_name (invoice (run w acts)))"
    and f: "\<forall>n \<in> set (map i_name (invoice (run w acts))). \<exists>k rc. records st k = Some rc \<and> r_name rc = n"
    using assms(2) by (simp_all add: names_from_store_def run_store)
  have "inj_on normalize_name (set (map i_name (invoice (run w acts))))"
  proof (rule inj_onI)
    fix x y
    assume x: "x \<in> set (map i_name (invoice (run w acts)))"
      and y: "y \<in> set (map i_name (invoice (run w acts)))"
      and e: "normalize_name x = normalize_name y"
    from f x obtain k1 r1 where r1: "records st k1 = Some r1" "r_name r1 = x" by blast
    from f y obtain k2 r2 where r2: "records st k2 = Some r2" "r_name r2 = y" by blast
    from kn r1 r2 e have "k1 = k2" unfolding keys_normalized_def by metis
    with r1 r2 show "x = y" by simp
  qed
  with d have "distinct (map normalize_name (map i_name (invoice (run w acts))))"
    by (simp only: distinct_map[of normalize_name "map i_name (invoice (run w acts))"] simp_thms)
  then show ?thesis by (simp only: map_map comp_def)
qed

section \<open>The example windows\<close>

lemma example_window_eval:
  "example_window =
     \<lparr>disk = example_file, store = Some example_store, invoice = [], added_qty = Map.empty,
      selected_name = None, details = None, completions = [''Aspirin'', '' Panadol '', ''Brufen''],
      add_enabled = True, print_enabled = True\<rparr>"
  by (simp add: example_window_def init_window_def load_store_def example_load get_all_names_def)
     (simp add: example_store_def)

lemma example_lookup:
  "get_medicine example_store ''aspirin'' = Some example_aspirin"
  "get_medicine example_store ''Aspirin'' = Some example_aspirin"
  "get_medicine example_store ''Nurofen'' = None"
  by (simp_all add: get_medicine_def example_store_def example_values)

lemma example_cart_eval:
  "example_cart =
     example_window\<lparr>invoice := [\<lparr>i_name = ''Aspirin'', i_mg = ''500mg'', i_rack = ''A1'',
                                 unit_price = Some 5, qty = 6\<rparr>],
       added_qty := [''Aspirin'' \<mapsto> 6],
       selected_name := Some ''Aspirin'',
       details := Some \<lparr>mg_label = ''500mg'', rack_label = ''A1'', stock_label = 4,
                        price_label = Some 5\<rparr>\<rparr>"
  by (simp add: example_cart_def example_window_eval select_medicine_def add_to_invoice_def
        available_stock_def reserved_def example_lookup example_aspirin_def Let_def)

lemma example_unsaved_eval:
  "store example_unsaved =
     Some (example_store\<lparr>records := (records example_store)(''aspirin'' \<mapsto> example_aspirin\<lparr>r_stock := 4\<rparr>),
             sheet := set_stock_cell example_file 2 (CInt 4)\<rparr>)"
  "added_qty example_unsaved = [''Aspirin'' \<mapsto> 6]"
  by (simp_all add: example_unsaved_def example_cart_eval example_window_eval on_print_def
        reduce_stock_def example_values Let_def example_store_def example_aspirin_def)

lemma example_medicines:
  "list_medicines example_builtins example_file =
     Inr [\<lparr>m_name = ''Aspirin'', m_mg = ''500mg'', rack_number = ''A1'', m_stock = 10,
           m_price = Some 5, actual_price = None\<rparr>,
          \<lparr>m_name = '' Panadol '', m_mg = [], rack_number = ''3'', m_stock = 0,
           m_price = Some 0, actual_price = None\<rparr>,
          \<lparr>m_name = ''Brufen'', m_mg = ''400mg'', rack_number = ''B2'', m_stock = 7,
           m_price = Some 12, actual_price = Some 11\<rparr>]"
  by (simp add: example_file_def medicine_of_row_def example_builtins_def to_int_def to_float_def
        is_blank_def or_empty_def example_values)

lemma example_cart2_items:
  "invoice_items example_cart2 =
     [\<lparr>medicine = \<lparr>m_name = ''Aspirin'', m_mg = ''500mg'', rack_number = ''A1'', m_stock = 10,
           m_price = Some 5, actual_price = None\<rparr>, quantity = 6\<rparr>]"
  by (simp add: example_cart2_def example_window2_def load_inventory_def example_medicines
        by_name_def clear_selection2_def on_medicine_selected_def on_add_clicked_def
        available_stock2_def add_or_update_item_def Let_def)

section \<open>Rounding to a double\<close>

text \<open>The floor of the binary logarithm.\<close>

lemma bitlen_bounds_rat:
  assumes "0 < a"
  shows "(2::rat) powi (bitlen a - 1) \<le> of_int a" and "of_int a < (2::rat) powi (bitlen a)"
proof -
  from bitlen_bounds[OF assms] have lo: "2 ^ nat (bitlen a - 1) \<le> a" and hi: "a < 2 ^ nat (bitlen a)"
    by simp_all
  have ge: "1 \<le> bitlen a" using assms by (simp add: bitlen_alt_def)
  from lo have "(of_int (2 ^ nat (bitlen a - 1)) :: rat) \<le> of_int a" by (simp only: of_int_le_iff)
  then show "(2::rat) powi (bitlen a - 1) \<le> of_int a" using ge by (simp add: power_int_def)
  from hi have "(of_int a :: rat) < of_int (2 ^ nat (bitlen a))" by (simp only: of_int_less_iff)
  then show "of_int a < (2::rat) powi (bitlen a)" using ge by (simp add: power_int_def)
qed

lemma powi_two_add: "(2::rat) powi (i + j) = 2 powi i * 2 powi j"
  by (simp add: power_int_add)

lemma powi_two_less: "i < j \<Longrightarrow> (2::rat) powi i < 2 powi j"
  by (simp add: power_int_strict_increasing)

lemma powi_two_le: "i \<le> j \<Longrightarrow> (2::rat) powi i \<le> 2 powi j"
  by (simp add: power_int_increasing)

lemma powi_two_less_cancel: "(2::rat) powi i < 2 powi j \<Longrightarrow> i < j"
  by (metis not_less powi_two_le)

lemma floor_log2_bounds:
  assumes "0 < x"
  shows "2 powi (floor_log2 x) \<le> x" and "x < 2 powi (floor_log2 x + 1)"
proof -
  obtain a b where q: "quotient_of x = (a, b)" by (cases "quotient_of x")
  then have b: "0 < b" and x: "x = of_int a / of_int b"
    using quotient_of_denom_pos quotient_of_div by blast+
  have a: "0 < a" using assms x b by (simp add: zero_less_divide_iff)
  let ?k = "bitlen a - bitlen b"
  note ba = bitlen_bounds_rat[OF a] and bb = bitlen_bounds_rat[OF b]
  have bpos: "(0::rat) < of_int b" using b by simp
  have "x < 2 powi (bitlen a) / 2 powi (bitlen b - 1)"
  proof -
    have "x < 2 powi (bitlen a) / of_int b" unfolding x using ba(2) bpos by (simp add: divide_strict_right_mono)
    also have "\<dots> \<le> 2 powi (bitlen a) / 2 powi (bitlen b - 1)"
      using bb(1) bpos by (intro divide_left_mono mult_pos_pos) simp_all
    finally show ?thesis .
  qed
  also have "\<dots> = 2 powi (bitlen a - (bitlen b - 1))"
    by (rule power_int_diff[symmetric]) simp
  also have "bitlen a - (bitlen b - 1) = ?k + 1" by simp
  finally have up: "x < 2 powi (?k + 1)" .
  have "(2::rat) powi (bitlen a - 1) / 2 powi (bitlen b) < x"
  proof -
    have "(2::rat) powi (bitlen a - 1) / 2 powi (bitlen b) < 2 powi (bitlen a - 1) / of_int b"
      using bb(2) bpos by (intro divide_strict_left_mono mult_pos_pos) simp_all
    also have "\<dots> \<le> x" unfolding x using ba(1) bpos by (simp add: divide_right_mono)
    finally show ?thesis .
  qed
  moreover have "2 powi (bitlen a - 1) / 2 powi (bitlen b) = (2::rat) powi (bitlen a - 1 - bitlen b)"
    by (rule power_int_diff[symmetric]) simp
  moreover have "bitlen a - 1 - bitlen b = ?k - 1" by simp
  ultimately have lo: "2 powi (?k - 1) < x" by simp
  have f: "floor_log2 x = (if 2 powi ?k \<le> x then ?k else ?k - 1)"
    by (simp add: floor_log2_def q Let_def)
  show "2 powi (floor_log2 x) \<le> x" using lo by (simp add: f)
  show "x < 2 powi (floor_log2 x + 1)" using up by (auto simp: f not_le)
qed

lemma floor_log2_unique:
  assumes "0 < x" and "2 powi k \<le> x" and "x < 2 powi (k + 1)"
  shows "floor_log2 x = k"
proof -
  note b = floor_log2_bounds[OF assms(1)]
  have "(2::rat) powi (floor_log2 x) < 2 powi (k + 1)" using b(1) assms(3) by simp
  then have "floor_log2 x < k + 1" by (rule powi_two_less_cancel)
  moreover have "(2::rat) powi k < 2 powi (floor_log2 x + 1)" using b(2) assms(2) by simp
  then have "k < floor_log2 x + 1" by (rule powi_two_less_cancel)
  ultimately show ?thesis by simp
qed

lemma round_half_even_of_int [simp]: "round_half_even (of_int m) = m"
  by (simp add: round_half_even_def)

lemma round_half_even_floor: "\<lfloor>y\<rfloor> \<le> round_half_even y" "round_half_even y \<le> \<lfloor>y\<rfloor> + 1"
  by (simp_all add: round_half_even_def Let_def)

lemma round_half_even_ge: "of_int n \<le> y \<Longrightarrow> n \<le> round_half_even y"
proof -
  assume "of_int n \<le> y"
  then have "n \<le> \<lfloor>y\<rfloor>" by (simp add: le_floor_iff)
  with round_half_even_floor(1)[of y] show ?thesis by linarith
qed

lemma round_half_even_le: "y < of_int n \<Longrightarrow> round_half_even y \<le> n"
proof -
  assume "y < of_int n"
  then have "\<lfloor>y\<rfloor> < n" by (simp add: floor_less_iff)
  with round_half_even_floor(2)[of y] show ?thesis by linarith
qed

text \<open>Rounding is idempotent: what it returns is a double.\<close>

lemma powi_two_plus_nat: "(2::rat) powi (e + int n) = 2 powi e * 2 ^ n"
  by (simp add: power_int_add)

lemma div_powi_less:
  assumes "x < 2 powi (e + int n)"
  shows "x / 2 powi e < (2::rat) ^ n"
proof -
  have "(0::rat) < 2 powi e" by simp
  moreover have "x < 2 ^ n * 2 powi e" using assms by (simp add: powi_two_plus_nat mult.commute)
  ultimately show ?thesis by (simp add: pos_divide_less_eq)
qed

lemma div_powi_ge:
  assumes "2 powi (e + int n) \<le> x"
  shows "(2::rat) ^ n \<le> x / 2 powi e"
proof -
  have "(0::rat) < 2 powi e" by simp
  moreover have "2 ^ n * 2 powi e \<le> x" using assms by (simp add: powi_two_plus_nat mult.commute)
  ultimately show ?thesis by (simp add: pos_le_divide_eq)
qed

lemma round_pos_idem:
  assumes "0 < x" and "0 < round_pos x"
  shows "round_pos (round_pos x) = round_pos x"
proof -
  define e where "e = ulp_exp x"
  define m where "m = round_half_even (x / 2 powi e)"
  define y where "y = round_pos x"
  have y: "y = of_int m * 2 powi e" by (simp add: y_def round_pos_def Let_def e_def m_def)
  have pe: "(0::rat) < 2 powi e" by simp
  have ypos: "0 < y" using assms(2) by (simp add: y_def)
  have mpos: "0 < m" using ypos pe unfolding y by (simp add: zero_less_mult_iff)
  have e1: "- 1074 \<le> e" and e2: "floor_log2 x - 52 \<le> e" by (simp_all add: e_def ulp_exp_def)
  have "x < 2 powi (floor_log2 x + 1)" by (rule floor_log2_bounds(2)[OF assms(1)])
  also have "\<dots> \<le> 2 powi (e + int 53)" using e2 by (intro powi_two_le) simp
  finally have "x / 2 powi e < 2 ^ 53" by (rule div_powi_less)
  then have "x / 2 powi e < of_int (2 ^ 53)" by simp
  then have mle: "m \<le> 2 ^ 53" unfolding m_def by (rule round_half_even_le)
  have ydiv: "y / 2 powi e = of_int m" using pe by (simp add: y)
  show ?thesis
  proof (cases "m = 2 ^ 53")
    case True
    have y53: "y = 2 powi (e + int 53)" unfolding y True powi_two_plus_nat by simp
    have "floor_log2 y = e + int 53"
    proof (rule floor_log2_unique[OF ypos])
      show "2 powi (e + int 53) \<le> y" by (simp add: y53)
      show "y < 2 powi (e + int 53 + 1)" unfolding y53 by (rule powi_two_less) simp
    qed
    then have ue: "ulp_exp y = e + 1" using e1 by (simp add: ulp_exp_def)
    have yy: "y = 2 powi (e + 1) * 2 ^ 52"
      unfolding y53 by (simp add: power_int_add)
    have pe1: "(2::rat) powi (e + 1) \<noteq> 0" by simp
    have "y / 2 powi (e + 1) = (2::rat) ^ 52"
      unfolding yy by (rule nonzero_mult_div_cancel_left[OF pe1])
    then have d: "y / 2 powi (e + 1) = of_int (2 ^ 52)" by simp
    have "round_pos y = of_int (2 ^ 52) * 2 powi (e + 1)"
      unfolding round_pos_def Let_def ue d round_half_even_of_int ..
    also have "\<dots> = y" unfolding yy by (simp add: mult.commute)
    finally show ?thesis by (simp add: y_def)
  next
    case False
    with mle have mlt: "m < 2 ^ 53" by simp
    have "(of_int m :: rat) < of_int (2 ^ 53)" using mlt by (simp only: of_int_less_iff)
    then have "of_int m * 2 powi e < of_int (2 ^ 53) * (2::rat) powi e"
      by (rule mult_strict_right_mono[OF _ pe])
    also have "of_int (2 ^ 53) * (2::rat) powi e = 2 powi (e + int 53)"
      by (simp add: power_int_add)
    finally have yup: "y < 2 powi (e + int 53)" unfolding y .
    have "(2::rat) powi (floor_log2 y) < 2 powi (e + int 53)"
      using floor_log2_bounds(1)[OF ypos] yup by simp
    then have f1: "floor_log2 y - 52 \<le> e" using powi_two_less_cancel by fastforce
    have ue: "ulp_exp y = e"
    proof (cases "e = - 1074")
      case True
      then show ?thesis using f1 by (simp add: ulp_exp_def)
    next
      case False
      with e1 have "e = floor_log2 x - 52" by (simp add: e_def ulp_exp_def)
      then have "floor_log2 x = e + int 52" by simp
      with floor_log2_bounds(1)[OF assms(1)] have "2 powi (e + int 52) \<le> x" by simp
      then have "(2::rat) ^ 52 \<le> x / 2 powi e" by (rule div_powi_ge)
      then have "of_int (2 ^ 52) \<le> x / 2 powi e" by simp
      then have "2 ^ 52 \<le> m" unfolding m_def by (rule round_half_even_ge)
      then have "(of_int (2 ^ 52) :: rat) \<le> of_int m" by (simp only: of_int_le_iff)
      then have "of_int (2 ^ 52) * (2::rat) powi e \<le> of_int m * 2 powi e"
        by (rule mult_right_mono[OF _ less_imp_le[OF pe]])
      moreover have "of_int (2 ^ 52) * (2::rat) powi e = 2 powi (e + int 52)"
        by (simp add: power_int_add)
      ultimately have "2 powi (e + int 52) \<le> y" unfolding y by (simp only:)
      with floor_log2_bounds(2)[OF ypos] have "(2::rat) powi (e + int 52) < 2 powi (floor_log2 y + 1)" by simp
      then have "e + int 52 < floor_log2 y + 1" by (rule powi_two_less_cancel)
      with f1 have "floor_log2 y - 52 = e" by simp
      then show ?thesis using e1 by (simp add: ulp_exp_def)
    qed
    have "round_pos y = of_int m * 2 powi e"
      unfolding round_pos_def Let_def ue ydiv round_half_even_of_int ..
    then have "round_pos y = y" by (simp only: y)
    then show ?thesis unfolding y_def .
  qed
qed

lemma round_double_idem:
  assumes "round_double x = Finite z"
  shows "round_double z = Finite z"
proof (cases "x = 0")
  case True
  with assms show ?thesis by (simp add: round_double_def)
next
  case False
  define y where "y = round_pos \<bar>x\<bar>"
  from assms False have lt: "y < 2 ^ 1024" and z: "z = (if 0 < x then y else - y)"
    by (auto simp: round_double_def Let_def y_def split: if_splits)
  have y0: "0 \<le> y"
    unfolding y_def round_pos_def Let_def
    by (intro mult_nonneg_nonneg) (simp_all add: round_half_even_ge)
  show ?thesis
  proof (cases "y = 0")
    case True
    then show ?thesis using z by (simp add: round_double_def)
  next
    case yn: False
    with y0 have ypos: "0 < y" by simp
    have ax: "0 < \<bar>x\<bar>" using False by simp
    have idem: "round_pos y = y" using round_pos_idem[OF ax] ypos by (simp add: y_def)
    have az: "\<bar>z\<bar> = y" using z ypos by simp
    have zn: "z \<noteq> 0" using z ypos by auto
    have nl: "\<not> 2 ^ 1024 \<le> y" using lt by (simp only: not_le)
    have zz: "(if 0 < z then y else - y) = z" using z ypos by (auto split: if_splits)
    show ?thesis
      unfolding round_double_def Let_def az idem by (simp only: zn nl zz if_False)
  qed
qed

text \<open>
  Rounding by certificate: a rational in the binade with spacing \<open>2 ^ e\<close> rounds to the
  multiple \<open>m * 2 ^ e\<close> that is less than half a spacing away, and to the even
  neighbour when it is half way between two multiples.
\<close>

lemma round_pos_eqI:
  assumes x: "0 < x" and e1: "- 1074 \<le> e"
    and lo: "2 powi (e + 52) \<le> x \<or> e = - 1074" and hi: "x < 2 powi (e + 53)"
  shows "round_pos x = of_int (round_half_even (x / 2 powi e)) * 2 powi e"
proof -
  have ue: "ulp_exp x = e"
  proof (cases "2 powi (e + 52) \<le> x")
    case True
    have "floor_log2 x = e + 52"
      using True hi by (intro floor_log2_unique[OF x]) (simp_all add: add.assoc)
    then show ?thesis using e1 by (simp add: ulp_exp_def)
  next
    case False
    with lo have e: "e = - 1074" by simp
    have "(2::rat) powi (floor_log2 x) < 2 powi (e + 53)"
      using floor_log2_bounds(1)[OF x] hi by simp
    then have "floor_log2 x < e + 53" by (rule powi_two_less_cancel)
    then show ?thesis using e by (simp add: ulp_exp_def)
  qed
  show ?thesis unfolding round_pos_def Let_def ue ..
qed

lemma round_double_eqI:
  assumes x: "0 < x" and e1: "- 1074 \<le> e" and e2: "e \<le> 970"
    and lo: "2 powi (e + 52) \<le> x \<or> e = - 1074" and hi: "x < 2 powi (e + 53)"
    and m: "round_half_even (x / 2 powi e) = m" and y: "y = of_int m * 2 powi e"
  shows "round_double x = Finite y"
proof -
  have pe: "(0::rat) < 2 powi e" by simp
  have rp: "round_pos x = y" unfolding y m[symmetric] by (rule round_pos_eqI[OF x e1 lo hi])
  have "x / 2 powi e < 2 ^ 53" using hi by (intro div_powi_less) simp
  then have "x / 2 powi e < of_int (2 ^ 53)" by simp
  then have "m \<le> 2 ^ 53" unfolding m[symmetric] by (rule round_half_even_le)
  then have "(of_int m :: rat) \<le> of_int (2 ^ 53)" by (simp only: of_int_le_iff)
  then have "of_int m * 2 powi e \<le> of_int (2 ^ 53) * (2::rat) powi e"
    by (rule mult_right_mono[OF _ less_imp_le[OF pe]])
  also have "of_int (2 ^ 53) * (2::rat) powi e = 2 powi (e + int 53)"
    by (simp add: power_int_add)
  also have "\<dots> < 2 powi (int 1024)" using e2 by (intro powi_two_less) simp
  also have "\<dots> = 2 ^ 1024" by (rule power_int_of_nat)
  finally have "y < 2 ^ 1024" unfolding y .
  then have nl: "\<not> 2 ^ 1024 \<le> y" by (simp only: not_le)
  have ax: "\<bar>x\<bar> = x" using x by simp
  have xn: "x \<noteq> 0" using x by simp
  show ?thesis
    unfolding round_double_def Let_def ax rp by (simp only: xn nl x if_False if_True)
qed

lemma round_half_even_nearI:
  assumes "\<bar>y - of_int m\<bar> < 1 / 2"
  shows "round_half_even y = m"
proof (cases "of_int m \<le> y")
  case True
  with assms have "\<lfloor>y\<rfloor> = m" by (intro floor_unique) simp_all
  then show ?thesis using assms True by (simp add: round_half_even_def Let_def)
next
  case False
  with assms have f: "\<lfloor>y\<rfloor> = m - 1" by (intro floor_unique) simp_all
  have "1 / 2 < y - of_int (m - 1)" using assms False by simp
  then show ?thesis unfolding round_half_even_def Let_def f by simp
qed

lemma round_double_nearI:
  assumes x: "0 < x" and e1: "- 1074 \<le> e" and e2: "e \<le> 970"
    and lo: "2 powi (e + 52) \<le> x \<or> e = - 1074" and hi: "x < 2 powi (e + 53)"
    and m: "\<bar>x - of_int m * 2 powi e\<bar> * 2 < 2 powi e" and y: "y = of_int m * 2 powi e"
  shows "round_double x = Finite y"
proof -
  have pe: "(0::rat) < 2 powi e" by simp
  have "x / 2 powi e - of_int m = (x - of_int m * 2 powi e) / 2 powi e"
    using pe by (simp add: diff_divide_distrib)
  then have "\<bar>x / 2 powi e - of_int m\<bar> = \<bar>x - of_int m * 2 powi e\<bar> / 2 powi e"
    using pe by (simp add: abs_divide)
  also have "\<dots> < 1 / 2" using m pe by (simp add: pos_divide_less_eq)
  finally have "round_half_even (x / 2 powi e) = m" by (rule round_half_even_nearI)
  from round_double_eqI[OF x e1 e2 lo hi this y] show ?thesis .
qed

lemma round_double_one: "round_double 1 = Finite 1"
  by (rule round_double_nearI[where e = "- 52" and m = "2 ^ 52"]) simp_all

lemma round_half_even_halfI:
  assumes "y - of_int k = 1 / 2"
  shows "round_half_even y = (if even k then k else k + 1)"
proof -
  from assms have "\<lfloor>y\<rfloor> = k" by (intro floor_unique) simp_all
  then show ?thesis using assms by (simp add: round_half_even_def Let_def)
qed

lemma round_double_tieI:
  assumes x: "0 < x" and e1: "- 1074 \<le> e" and e2: "e \<le> 970"
    and lo: "2 powi (e + 52) \<le> x \<or> e = - 1074" and hi: "x < 2 powi (e + 53)"
    and k: "(x - of_int k * 2 powi e) * 2 = 2 powi e"
    and y: "y = of_int (if even k then k else k + 1) * 2 powi e"
  shows "round_double x = Finite y"
proof -
  have pe: "(0::rat) < 2 powi e" by simp
  have "x / 2 powi e - of_int k = (x - of_int k * 2 powi e) / 2 powi e"
    using pe by (simp add: diff_divide_distrib)
  also have "\<dots> = 1 / 2" using k pe by (simp add: field_simps)
  finally have "round_half_even (x / 2 powi e) = (if even k then k else k + 1)" by (rule round_half_even_halfI)
  from round_double_eqI[OF x e1 e2 lo hi this y] show ?thesis .
qed

lemma example_doubles:
  "round_double (15 / 100) = Finite (5404319552844595 / 36028797018963968)"
  "round_double (3 / 20) = Finite (5404319552844595 / 36028797018963968)"
  "round_double 2 = Finite 2"
  "round_double (1 / 10) = Finite (3602879701896397 / 36028797018963968)"
  "round_double (1 / 2) = Finite (1 / 2)"
      apply (rule round_double_nearI[where e = "- 55" and m = 5404319552844595]; simp)
     apply (rule round_double_nearI[where e = "- 55" and m = 5404319552844595]; simp)
    apply (rule round_double_nearI[where e = "- 51" and m = "2 ^ 52"]; simp)
   apply (rule round_double_nearI[where e = "- 56" and m = 7205759403792794]; simp)
  apply (rule round_double_nearI[where e = "- 53" and m = "2 ^ 52"]; simp)
  done

section \<open>The money methods: sums are doubles, and the example invoice\<close>

lemma round_double_zero: "round_double 0 = Finite 0"
  by (simp add: round_double_def)

lemma round_double_is_double: "is_double (round_double x)"
  by (cases "round_double x") (simp_all add: is_double_def round_double_idem)

lemma fadd_is_double: "is_double (fadd a b)"
  by (cases a; cases b) (simp_all add: round_double_is_double, simp_all add: is_double_def)

lemma sum_sequential_is_double: "is_double f \<Longrightarrow> is_double (sum_sequential f xs)"
  by (induction xs arbitrary: f) (simp_all add: fadd_is_double)

lemma sum_compensated_is_double: "is_double f \<Longrightarrow> is_double (sum_compensated f c xs)"
  by (induction xs arbitrary: f c) (simp_all add: fadd_is_double Let_def)

lemma py_sum_is_double: "is_double (py_sum m xs)"
proof (cases xs)
  case Nil
  then show ?thesis by (simp add: is_double_def round_double_zero)
next
  case (Cons x xs')
  then show ?thesis
    by (cases m) (simp_all add: sum_sequential_is_double sum_compensated_is_double fadd_is_double)
qed

lemma subtotal_is_double:
  assumes "subtotal m items = Inr (Finite s)"
  shows "round_double s = Finite s"
proof -
  from assms obtain ts where "py_sum m ts = Finite s"
    by (auto simp: subtotal_def split: sum.splits)
  with py_sum_is_double[of m ts] show ?thesis by (simp add: is_double_def)
qed

lemma example_products:
  "fmul (Finite (5404319552844595 / 36028797018963968)) (Finite 2)
     = Finite (5404319552844595 / 18014398509481984)"
  "fadd (Finite 0) (Finite (5404319552844595 / 18014398509481984))
     = Finite (5404319552844595 / 18014398509481984)"
  "fmul (Finite (5404319552844595 / 18014398509481984)) (Finite (3602879701896397 / 36028797018963968))
     = Finite (1080863910568919 / 36028797018963968)"
  "fsub (Finite (5404319552844595 / 18014398509481984)) (Finite (1080863910568919 / 36028797018963968))
     = Finite (607985949695017 / 2251799813685248)"
  "fadd (Finite (1080863910568919 / 36028797018963968)) (Finite (607985949695017 / 2251799813685248))
     = Finite (1351079888211149 / 4503599627370496)"
  unfolding fmul.simps fadd.simps fsub_def fneg.simps
      apply (rule round_double_nearI[where e = "- 54" and m = 5404319552844595]; simp)
     apply (rule round_double_nearI[where e = "- 54" and m = 5404319552844595]; simp)
    apply (rule round_double_nearI[where e = "- 58" and m = 8646911284551352]; simp)
   apply (rule round_double_tieI[where e = "- 54" and k = 4863887597560135]; simp)
  apply (rule round_double_tieI[where e = "- 54" and k = 5404319552844595]; simp)
  done

lemma example_half:
  "fmul (Finite (5404319552844595 / 18014398509481984)) (Finite (1 / 2))
     = Finite (5404319552844595 / 36028797018963968)"
  "round_double (5404319552844595 / 18014398509481984 - 5404319552844595 / 36028797018963968)
     = Finite (5404319552844595 / 18014398509481984 - 5404319552844595 / 36028797018963968)"
  unfolding fmul.simps
   apply (rule round_double_nearI[where e = "- 55" and m = 5404319552844595]; simp)
  apply (rule round_double_nearI[where e = "- 55" and m = 5404319552844595]; simp)
  done

lemma example_line_total:
  "line_total (example_invoice ! 0) = Inr (Finite (5404319552844595 / 18014398509481984))"
  by (simp add: example_invoice_def line_total_def double_of_int_def example_doubles
        example_products del: fmul.simps)

lemma example_subtotal:
  "subtotal m example_invoice = Inr (Finite (5404319552844595 / 18014398509481984))"
proof -
  have f: "example_invoice = [example_invoice ! 0]" by (simp add: example_invoice_def)
  have "line_totals example_invoice = Inr [Finite (5404319552844595 / 18014398509481984)]"
    by (subst f) (simp add: example_line_total)
  then show ?thesis
    by (cases m) (simp_all add: subtotal_def example_products del: fadd.simps)
qed

lemma example_discount:
  "discount_amount m example_invoice (Finite 10) = Inr (Finite (1080863910568919 / 36028797018963968))"
  "net_total m example_invoice (Finite 10) = Inr (Finite (607985949695017 / 2251799813685248))"
  by (simp_all add: net_total_def discount_amount_def example_subtotal div_by_100_def example_doubles
        example_products del: fmul.simps)

lemma net_total_infinite_subtotal:
  "subtotal m example_invoice_inf = Inr PosInf"
  "net_total m example_invoice_inf (Finite 0) = Inr NaN"
proof -
  have l: "line_totals example_invoice_inf = Inr [PosInf]"
    by (simp add: example_invoice_inf_def line_total_def double_of_int_def round_double_one)
  show s: "subtotal m example_invoice_inf = Inr PosInf"
    by (cases m) (simp_all add: subtotal_def l)
  show "net_total m example_invoice_inf (Finite 0) = Inr NaN"
    by (simp add: net_total_def discount_amount_def s div_by_100_def round_double_zero fsub_def)
qed

section \<open>The claims\<close>

text \<open>
  C9, as stated, fails for a stored name with whitespace around it: \<open>_read_rows\<close>
  keeps the name of the cell as it is (\<open>str(name_val)\<close>) and files the record under
  the normalized name. The second medicine of the example workbook is stored with the
  name \<open>" Panadol "\<close>; the query \<open>"Panadol"\<close> finds it, although the query, trimmed
  and compared without regard to case, is not the record's name.
\<close>

theorem get_medicine_padded_name_counterexample:
  "load example_builtins example_file = Inr example_store
   \<and> get_medicine example_store ''Panadol'' = Some example_panadol
   \<and> r_name example_panadol = '' Panadol ''
   \<and> py_lower (py_strip ''Panadol'') = ''panadol''
   \<and> py_lower (r_name example_panadol) = '' panadol ''
   \<and> py_lower (py_strip ''Panadol'') \<noteq> py_lower (r_name example_panadol)"
  using example_load
  by (simp add: get_medicine_def example_store_def example_padded_values example_panadol_def)

text \<open>
  C9, amended. Lookup by name is an exact match up to surrounding whitespace and letter
  case on both sides: in a store that is in step with its sheet, \<open>get_medicine\<close>
  returns a stored record exactly when the query, stripped and lower-cased, equals the
  record's name stripped and lower-cased the same way (the key under which
  \<open>_read_rows\<close> files the record), which is the record's name lower-cased when the
  name has no whitespace around it; and it returns \<open>None\<close> exactly when no stored
  record matches in this sense.
\<close>

theorem get_medicine_exact_match:
  assumes "synced B st" and "records st k = Some r"
  shows "(get_medicine st query = Some r \<longleftrightarrow>
            py_lower (py_strip query) = py_lower (py_strip (r_name r)))
       \<and> (py_strip (r_name r) = r_name r \<longrightarrow>
            (get_medicine st query = Some r \<longleftrightarrow>
               py_lower (py_strip query) = py_lower (r_name r)))
       \<and> (get_medicine st query = None \<longleftrightarrow>
            (\<forall>k' r'. records st k' = Some r' \<longrightarrow>
               py_lower (py_strip query) \<noteq> py_lower (py_strip (r_name r'))))"
proof -
  have kn: "\<And>k' r'. records st k' = Some r' \<Longrightarrow> normalize_name (r_name r') = k'"
    using synced_keys[OF assms(1)] by (simp add: keys_normalized_def)
  have a: "get_medicine st query = Some r \<longleftrightarrow> normalize_name query = normalize_name (r_name r)"
  proof
    assume "get_medicine st query = Some r"
    then have "records st (normalize_name query) = Some r" by (simp add: get_medicine_def)
    from kn[OF this] show "normalize_name query = normalize_name (r_name r)" by simp
  next
    assume "normalize_name query = normalize_name (r_name r)"
    then show "get_medicine st query = Some r"
      using kn[OF assms(2)] assms(2) by (simp add: get_medicine_def)
  qed
  have b: "get_medicine st query = None \<longleftrightarrow>
      (\<forall>k' r'. records st k' = Some r' \<longrightarrow> normalize_name query \<noteq> normalize_name (r_name r'))"
  proof
    assume n: "get_medicine st query = None"
    show "\<forall>k' r'. records st k' = Some r' \<longrightarrow> normalize_name query \<noteq> normalize_name (r_name r')"
    proof (intro allI impI notI)
      fix k' r'
      assume "records st k' = Some r'" and "normalize_name query = normalize_name (r_name r')"
      with kn[of k' r'] have "records st (normalize_name query) = Some r'" by simp
      with n show False by (simp add: get_medicine_def)
    qed
  next
    assume h: "\<forall>k' r'. records st k' = Some r' \<longrightarrow> normalize_name query \<noteq> normalize_name (r_name r')"
    show "get_medicine st query = None"
    proof (rule ccontr)
      assume "get_medicine st query \<noteq> None"
      then obtain r' where r': "records st (normalize_name query) = Some r'"
        by (auto simp: get_medicine_def)
      from kn[OF r'] h r' show False by metis
    qed
  qed
  have a': "get_medicine st query = Some r \<longleftrightarrow>
      py_lower (py_strip query) = py_lower (py_strip (r_name r))"
    using a by (simp add: normalize_name_def)
  have b': "get_medicine st query = None \<longleftrightarrow>
      (\<forall>k' r'. records st k' = Some r' \<longrightarrow>
         py_lower (py_strip query) \<noteq> py_lower (py_strip (r_name r')))"
    using b by (simp add: normalize_name_def)
  have c: "py_strip (r_name r) = r_name r \<longrightarrow>
      (get_medicine st query = Some r \<longleftrightarrow> py_lower (py_strip query) = py_lower (r_name r))"
    using a' by simp
  show ?thesis by (intro conjI a' b' c)
qed


text \<open>The example store: a query in capitals with spaces finds the record.\<close>

theorem get_medicine_exact_match_witness:
  "synced example_builtins example_store
   \<and> records example_store ''aspirin'' = Some example_aspirin
   \<and> get_medicine example_store ''  ASPIRIN '' = Some example_aspirin
   \<and> py_lower (py_strip ''  ASPIRIN '') = py_lower (py_strip (r_name example_aspirin))
   \<and> get_medicine example_store ''brufen'' \<noteq> Some example_aspirin
   \<and> get_medicine example_store ''Nurofen'' = None"
proof -
  have r: "records example_store ''aspirin'' = Some example_aspirin"
    by (simp add: example_store_def)
  have n: "py_lower (py_strip ''  ASPIRIN '') = py_lower (py_strip (r_name example_aspirin))"
    using example_values by (simp add: normalize_name_def example_aspirin_def)
  have m: "py_lower (py_strip ''brufen'') \<noteq> py_lower (py_strip (r_name example_aspirin))"
    using example_values by (simp add: normalize_name_def example_aspirin_def)
  have "get_medicine example_store ''Nurofen'' = None"
    by (simp add: get_medicine_def example_store_def example_values)
  then show ?thesis
    using get_medicine_exact_match[OF example_synced r, of "''  ASPIRIN ''"]
      get_medicine_exact_match[OF example_synced r, of "''brufen''"] example_synced r n m
    by simp
qed


text \<open>
  C5. \<open>reduce_stock\<close> raises before it changes anything when the quantity is zero or
  negative (\<open>ValueError\<close>), when the quantity is positive and the normalized name is
  unknown (\<open>KeyError\<close>), and when the quantity is positive and exceeds the record's
  stock (\<open>ValueError\<close>, insufficient stock): the store it leaves is the store it got.
  Otherwise it returns, the record's stock is smaller by the quantity and every other
  record is as before. The workbook file is not among the things it can change: only
  \<open>save\<close> produces the file's new content, and a checkout whose write fails leaves
  the file as it was, whatever was decremented in memory.
\<close>

theorem reduce_stock_contract:
  "(q \<le> 0 \<longrightarrow> reduce_stock st name q = Inl (QuantityNotPositive, st))
   \<and> (0 < q \<and> get_medicine st name = None \<longrightarrow>
        reduce_stock st name q = Inl (MedicineNotFound name, st))
   \<and> (\<forall>rc. 0 < q \<and> get_medicine st name = Some rc \<and> r_stock rc < q \<longrightarrow>
        reduce_stock st name q = Inl (InsufficientStock (r_name rc) (r_stock rc) q, st))
   \<and> (\<forall>rc. synced B st \<and> 0 < q \<and> get_medicine st name = Some rc \<and> q \<le> r_stock rc \<longrightarrow>
        (\<exists>st'. reduce_stock st name q = Inr st'
           \<and> get_medicine st' name = Some (rc\<lparr>r_stock := r_stock rc - q\<rparr>)
           \<and> (\<forall>other. normalize_name other \<noteq> normalize_name name \<longrightarrow>
                 get_medicine st' other = get_medicine st other)))
   \<and> disk (snd (on_print B printer_valid False w)) = disk w"
proof (intro conjI allI impI)
  show "disk (snd (on_print B printer_valid False w)) = disk w"
    by (rule on_print_unsaved_disk)
next
  assume "q \<le> 0"
  then show "reduce_stock st name q = Inl (QuantityNotPositive, st)"
    by (simp add: reduce_stock_def)
next
  assume "0 < q \<and> get_medicine st name = None"
  then show "reduce_stock st name q = Inl (MedicineNotFound name, st)"
    by (simp add: reduce_stock_def get_medicine_def)
next
  fix rc
  assume "0 < q \<and> get_medicine st name = Some rc \<and> r_stock rc < q"
  then show "reduce_stock st name q = Inl (InsufficientStock (r_name rc) (r_stock rc) q, st)"
    by (simp add: reduce_stock_def get_medicine_def)
next
  fix rc
  assume h: "synced B st \<and> 0 < q \<and> get_medicine st name = Some rc \<and> q \<le> r_stock rc"
  then have rec: "records st (normalize_name name) = Some rc" by (simp add: get_medicine_def)
  then have "normalize_name name \<in> dom (row_refs st)" using synced_dom[of B st] h by auto
  then obtain rf where rf: "row_refs st (normalize_name name) = Some rf" by auto
  let ?st' = "st\<lparr>records := (records st)(normalize_name name \<mapsto> rc\<lparr>r_stock := r_stock rc - q\<rparr>),
                 sheet := set_stock_cell (sheet st) (stock_cell_ref rf) (CInt (r_stock rc - q))\<rparr>"
  have "reduce_stock st name q = Inr ?st'"
    unfolding reduce_stock_Inr using h rec rf by simp
  moreover have "get_medicine ?st' name = Some (rc\<lparr>r_stock := r_stock rc - q\<rparr>)"
    by (simp add: get_medicine_def)
  moreover have "\<forall>other. normalize_name other \<noteq> normalize_name name \<longrightarrow>
                 get_medicine ?st' other = get_medicine st other"
    by (simp add: get_medicine_def)
  ultimately show "\<exists>st'. reduce_stock st name q = Inr st'
           \<and> get_medicine st' name = Some (rc\<lparr>r_stock := r_stock rc - q\<rparr>)
           \<and> (\<forall>other. normalize_name other \<noteq> normalize_name name \<longrightarrow>
                 get_medicine st' other = get_medicine st other)"
    by blast
qed

text \<open>The four cases on the example store.\<close>

theorem reduce_stock_contract_witness:
  "reduce_stock example_store ''Aspirin'' 0 = Inl (QuantityNotPositive, example_store)
   \<and> get_medicine example_store ''Nurofen'' = None
   \<and> reduce_stock example_store ''Nurofen'' 1 = Inl (MedicineNotFound ''Nurofen'', example_store)
   \<and> get_medicine example_store ''brufen'' = Some example_brufen
   \<and> reduce_stock example_store ''brufen'' 8 = Inl (InsufficientStock ''Brufen'' 7 8, example_store)
   \<and> get_medicine example_store ''aspirin'' = Some example_aspirin
   \<and> (\<exists>st'. reduce_stock example_store ''aspirin'' 4 = Inr st'
         \<and> get_medicine st' ''aspirin'' = Some (example_aspirin\<lparr>r_stock := 6\<rparr>)
         \<and> get_medicine st' ''brufen'' = Some example_brufen)
   \<and> map_option r_stock (record_of example_unsaved ''Aspirin'') = Some 4
   \<and> disk example_unsaved = example_file"
proof -
  have u: "map_option r_stock (record_of example_unsaved ''Aspirin'') = Some 4"
    by (simp add: record_of_def example_unsaved_eval get_medicine_def example_values
          example_aspirin_def)
  have v: "disk example_unsaved = example_file"
    using reduce_stock_contract[of 4 example_store "''aspirin''" example_builtins True example_cart]
    by (simp add: example_unsaved_def example_cart_eval example_window_eval)
  have g1: "get_medicine example_store ''Nurofen'' = None"
    and g2: "get_medicine example_store ''brufen'' = Some example_brufen"
    and g3: "get_medicine example_store ''aspirin'' = Some example_aspirin"
    by (simp_all add: get_medicine_def example_store_def example_values)
  have s: "r_stock example_brufen = 7" "r_name example_brufen = ''Brufen''"
    "r_stock example_aspirin = 10"
    by (simp_all add: example_brufen_def example_aspirin_def)
  have n: "normalize_name ''brufen'' \<noteq> normalize_name ''aspirin''"
    by (simp add: example_values)
  have a: "reduce_stock example_store ''Aspirin'' 0 = Inl (QuantityNotPositive, example_store)"
    using reduce_stock_contract[of 0 example_store "''Aspirin''" example_builtins] by simp
  have b: "reduce_stock example_store ''Nurofen'' 1 = Inl (MedicineNotFound ''Nurofen'', example_store)"
    using reduce_stock_contract[of 1 example_store "''Nurofen''" example_builtins] g1 by simp
  have c: "reduce_stock example_store ''brufen'' 8 = Inl (InsufficientStock ''Brufen'' 7 8, example_store)"
    using reduce_stock_contract[of 8 example_store "''brufen''" example_builtins] g2 s by fastforce
  from reduce_stock_contract[of 4 example_store "''aspirin''" example_builtins] g3 s example_synced
  obtain st' where r: "reduce_stock example_store ''aspirin'' 4 = Inr st'"
    and "get_medicine st' ''aspirin'' = Some (example_aspirin\<lparr>r_stock := 10 - 4\<rparr>)"
    and o: "\<forall>other. normalize_name other \<noteq> normalize_name ''aspirin'' \<longrightarrow>
            get_medicine st' other = get_medicine example_store other"
    by fastforce
  then have d: "get_medicine st' ''aspirin'' = Some (example_aspirin\<lparr>r_stock := 6\<rparr>)" by simp
  have e: "get_medicine st' ''brufen'' = Some example_brufen" using o n g2 by simp
  show ?thesis using a b c d e r g1 g2 g3 u v by blast
qed

text \<open>
  C6. Round trip: in a store in step with its sheet, for a medicine with stock \<open>s\<close> and
  a quantity \<open>0 < q \<le> s\<close>, \<open>reduce_stock\<close> returns, and loading the file that
  \<open>save\<close> writes gives a store in which the medicine's record is the old one with
  stock \<open>s - q\<close>.
\<close>

theorem decrement_commit_reload:
  assumes "synced B st" and "get_medicine st name = Some rc" and "0 < q" and "q \<le> r_stock rc"
  shows "\<exists>st' st''. reduce_stock st name q = Inr st' \<and> load B (save st') = Inr st''
           \<and> get_medicine st'' name = Some (rc\<lparr>r_stock := r_stock rc - q\<rparr>)"
proof -
  from reduce_stock_success[OF assms] obtain st' where
    r: "reduce_stock st name q = Inr st'"
    and g: "get_medicine st' name = Some (rc\<lparr>r_stock := r_stock rc - q\<rparr>)"
    by (auto simp: get_medicine_def)
  from reduce_stock_synced[OF assms(1) r] have "load B (save st') = Inr st'" by (rule synced_load)
  with r g show ?thesis by blast
qed

text \<open>Four of the ten units of the example's first medicine.\<close>

theorem decrement_commit_reload_witness:
  "synced example_builtins example_store
   \<and> get_medicine example_store ''Aspirin'' = Some example_aspirin
   \<and> (\<exists>st' st''. reduce_stock example_store ''Aspirin'' 4 = Inr st'
         \<and> load example_builtins (save st') = Inr st''
         \<and> get_medicine st'' ''Aspirin'' = Some (example_aspirin\<lparr>r_stock := 6\<rparr>))"
proof -
  have g: "get_medicine example_store ''Aspirin'' = Some example_aspirin"
    by (simp add: get_medicine_def example_store_def example_values)
  have s: "r_stock example_aspirin = 10" by (simp add: example_aspirin_def)
  have "(0::int) < 4" and "4 \<le> r_stock example_aspirin" using s by simp_all
  from decrement_commit_reload[OF example_synced g this] s
  show ?thesis using example_synced g by simp
qed

text \<open>
  C2. When the printer is not valid, \<open>_on_print\<close> of the main window (with a store
  and a non-empty invoice) shows the printer error and returns the window as it was:
  store, file, invoice and ledger. The same holds for \<open>_on_print_clicked\<close> of the
  second window when \<open>print_receipt\<close> returns false: it shows the print failure and
  changes nothing.
\<close>

theorem print_failure_aborts:
  "(store w = Some st \<and> invoice w \<noteq> [] \<longrightarrow> on_print B False save_ok w = ([PrinterError], w))
   \<and> (invoice_items w2 \<noteq> [] \<longrightarrow> on_print_clicked B False save_ok w2 = ([PrintFailed], w2))"
  by (simp add: on_print_def on_print_clicked_def)

text \<open>Both windows with six units of the first medicine in the cart.\<close>

theorem print_failure_aborts_witness:
  "store example_cart = Some example_store \<and> invoice example_cart \<noteq> []
   \<and> on_print example_builtins False True example_cart = ([PrinterError], example_cart)
   \<and> invoice_items example_cart2 \<noteq> []
   \<and> on_print_clicked example_builtins False True example_cart2 = ([PrintFailed], example_cart2)"
proof -
  have a: "store example_cart = Some example_store" "invoice example_cart \<noteq> []"
    by (simp_all add: example_cart_eval example_window_eval)
  have b: "invoice_items example_cart2 \<noteq> []" by (simp add: example_cart2_items)
  show ?thesis
    using print_failure_aborts[of example_cart example_store example_builtins True example_cart2] a b
    by simp
qed

text \<open>
  C1. In a main window whose store is in step with its sheet and whose ledger is empty,
  after any sequence of selections and clicks on the add button (with any quantities),
  the quantity reserved under the name of a record is at most the record's stock, for
  a stock of at least zero (and is at most zero for a negative stock, which the sheet
  can hold). The store is not changed by these actions, so this is the stock as it was
  loaded.
\<close>

theorem reserved_never_exceeds_stock:
  assumes "synced B st" and "store w = Some st" and "added_qty w = Map.empty"
    and "records st k = Some rc"
  shows "reserved (run w acts) (r_name rc) \<le> max (r_stock rc) 0
       \<and> (0 \<le> r_stock rc \<longrightarrow> reserved (run w acts) (r_name rc) \<le> r_stock rc)"
proof -
  have "ledger_within_stock w" using assms(2,3) by (simp add: ledger_within_stock_def reserved_def)
  from ledger_within_stock_run[OF assms(2) synced_keys[OF assms(1)] this, of acts]
  have "reserved (run w acts) (r_name rc) \<le> max (r_stock rc) 0"
    using assms(2,4) by (simp add: ledger_within_stock_def run_store)
  then show ?thesis by linarith
qed

text \<open>
  The example: six units are reserved, five more are refused, six remain reserved.
\<close>

theorem reserved_never_exceeds_stock_witness:
  "synced example_builtins example_store \<and> store example_window = Some example_store
   \<and> added_qty example_window = Map.empty
   \<and> records example_store ''aspirin'' = Some example_aspirin \<and> 0 \<le> r_stock example_aspirin
   \<and> reserved (run example_window [Select ''aspirin'', Add 6, Add 5]) (r_name example_aspirin)
        \<le> r_stock example_aspirin
   \<and> reserved (run example_window [Select ''aspirin'', Add 6, Add 5]) ''Aspirin'' = 6"
proof -
  have a: "store example_window = Some example_store" "added_qty example_window = Map.empty"
    by (simp_all add: example_window_eval)
  have b: "records example_store ''aspirin'' = Some example_aspirin"
    by (simp add: example_store_def)
  have c: "0 \<le> r_stock example_aspirin" by (simp add: example_aspirin_def)
  have "run example_window [Select ''aspirin'', Add 6, Add 5] = snd (add_to_invoice example_cart 5)"
    by (simp add: example_cart_def)
  also have "\<dots> = example_cart"
    by (simp add: example_cart_eval example_window_eval add_to_invoice_def available_stock_def
          reserved_def example_lookup example_aspirin_def)
  finally have d: "reserved (run example_window [Select ''aspirin'', Add 6, Add 5]) ''Aspirin'' = 6"
    by (simp add: example_cart_eval reserved_def)
  show ?thesis
    using reserved_never_exceeds_stock[OF example_synced a b, of "[Select ''aspirin'', Add 6, Add 5]"]
      example_synced a b c d
    by simp
qed

text \<open>
  C8, as stated, fails: after a checkout whose write of the workbook file failed, the
  first medicine of the example has stock 4 in memory and 6 reserved; selecting it
  shows 0 available, not \<open>4 - 6\<close>.
\<close>

theorem available_stock_clamped_counterexample:
  "map_option r_stock (record_of example_unsaved ''Aspirin'') = Some 4
   \<and> reserved example_unsaved ''Aspirin'' = 6
   \<and> map_option stock_label (details (select_medicine example_unsaved ''Aspirin'')) = Some 0
   \<and> (0::int) \<noteq> 4 - 6"
  by (simp add: record_of_def example_unsaved_eval get_medicine_def example_values reserved_def
        select_medicine_def available_stock_def example_aspirin_def)

text \<open>
  C8, amended. Selecting a name that the store finds selects the record's name and
  shows as available the record's stock minus the quantity reserved under its name
  (zero when no entry), but never less than zero; this is the plain difference whenever
  the reserved quantity is at most the stock. Selecting a name that the store does not
  find clears the selection and the details; \<open>_select_medicine\<close> itself returns no
  message, and the not-found message is shown by \<open>_on_search_enter\<close> for a search
  text that is not blank and not found.
\<close>

theorem select_medicine_exposes:
  assumes "synced B st" and "store w = Some st"
  shows "(\<forall>rc. get_medicine st name = Some rc \<longrightarrow>
            selected_name (select_medicine w name) = Some (r_name rc)
          \<and> map_option stock_label (details (select_medicine w name))
              = Some (max (r_stock rc - reserved w (r_name rc)) 0)
          \<and> available_stock (select_medicine w name) (r_name rc)
              = max (r_stock rc - reserved w (r_name rc)) 0
          \<and> (reserved w (r_name rc) \<le> r_stock rc \<longrightarrow>
              available_stock (select_medicine w name) (r_name rc)
                = r_stock rc - reserved w (r_name rc)))
       \<and> (get_medicine st name = None \<longrightarrow>
            select_medicine w name = clear_selection w
          \<and> selected_name (select_medicine w name) = None
          \<and> details (select_medicine w name) = None)
       \<and> (py_strip input \<noteq> [] \<and> get_medicine st (py_strip input) = None \<longrightarrow>
            on_search_enter w input = ([NotFoundInfo], clear_selection w))"
proof (intro conjI allI impI)
  fix rc
  assume g: "get_medicine st name = Some rc"
  note own = get_medicine_own_name[OF synced_keys[OF assms(1)] g]
  show "selected_name (select_medicine w name) = Some (r_name rc)"
    using assms(2) g by (simp add: select_medicine_def)
  have av: "available_stock w (r_name rc) = max (r_stock rc - reserved w (r_name rc)) 0"
    using assms(2) own by (simp add: available_stock_def)
  show "map_option stock_label (details (select_medicine w name))
              = Some (max (r_stock rc - reserved w (r_name rc)) 0)"
    using assms(2) g av by (simp add: select_medicine_def)
  show av': "available_stock (select_medicine w name) (r_name rc)
              = max (r_stock rc - reserved w (r_name rc)) 0"
    using assms(2) own by (simp add: available_stock_def select_medicine_keeps)
  assume "reserved w (r_name rc) \<le> r_stock rc"
  then show "available_stock (select_medicine w name) (r_name rc) = r_stock rc - reserved w (r_name rc)"
    using av' by simp
next
  assume g: "get_medicine st name = None"
  then show "select_medicine w name = clear_selection w"
    using assms(2) by (simp add: select_medicine_def)
  then show "selected_name (select_medicine w name) = None"
    "details (select_medicine w name) = None"
    by (simp_all add: clear_selection_def)
next
  assume "py_strip input \<noteq> [] \<and> get_medicine st (py_strip input) = None"
  then show "on_search_enter w input = ([NotFoundInfo], clear_selection w)"
    using assms(2) by (simp add: on_search_enter_def)
qed

text \<open>The example cart: a found name in capitals, and an unknown name.\<close>

theorem select_medicine_exposes_witness:
  "synced example_builtins example_store \<and> store example_cart = Some example_store
   \<and> get_medicine example_store ''  ASPIRIN '' = Some example_aspirin
   \<and> selected_name (select_medicine example_cart ''  ASPIRIN '') = Some ''Aspirin''
   \<and> map_option stock_label (details (select_medicine example_cart ''  ASPIRIN '')) = Some 4
   \<and> get_medicine example_store ''Nurofen'' = None
   \<and> selected_name (select_medicine example_cart ''Nurofen'') = None
   \<and> py_strip '' Nurofen '' \<noteq> []
   \<and> on_search_enter example_cart '' Nurofen '' = ([NotFoundInfo], clear_selection example_cart)"
proof -
  have a: "store example_cart = Some example_store"
    by (simp add: example_cart_eval example_window_eval)
  have g: "get_medicine example_store ''  ASPIRIN '' = Some example_aspirin"
    by (simp add: get_medicine_def example_store_def example_values)
  have s: "py_strip '' Nurofen '' = ''Nurofen''" by code_simp
  have r: "reserved example_cart ''Aspirin'' = 6" by (simp add: example_cart_eval reserved_def)
  have n: "r_name example_aspirin = ''Aspirin''" "r_stock example_aspirin = 10"
    by (simp_all add: example_aspirin_def)
  show ?thesis
    using select_medicine_exposes[OF example_synced a, of "''  ASPIRIN ''" "'' Nurofen ''"]
      select_medicine_exposes[OF example_synced a, of "''Nurofen''" "'' Nurofen ''"]
      example_synced a g s r n example_lookup(3)
    by (simp add: clear_selection_def)
qed



text \<open>
  C3, as stated, fails for names that differ in case only: \<open>add_item\<close> compares names
  with \<open>==\<close>, so two adds whose names have the same normalized form give two lines.
\<close>

theorem add_item_case_sensitive_counterexample:
  "map i_name (foldl add_item [] [example_item ''Aspirin'' 1, example_item ''aspirin'' 2])
     = [''Aspirin'', ''aspirin'']
   \<and> map qty (foldl add_item [] [example_item ''Aspirin'' 1, example_item ''aspirin'' 2]) = [1, 2]
   \<and> normalize_name ''Aspirin'' = normalize_name ''aspirin''"
  by (simp add: example_item_def example_values)

text \<open>
  C3, amended. With names compared as exact strings: after any sequence of
  \<open>add_item\<close> calls on an empty invoice, no two lines have the same name, the names
  of the lines are the names of the adds, and the line with a name has the sum of the
  quantities of the adds with that name. An add whose name is present keeps the list
  of names and adds its quantity to that line; one whose name is absent is appended.
\<close>

theorem add_item_merges_by_exact_name:
  fixes adds :: "'f invoice_item list"
  shows "distinct (map i_name (foldl add_item [] adds))
   \<and> set (map i_name (foldl add_item [] adds)) = set (map i_name adds)
   \<and> (\<forall>n. line_qty (foldl add_item [] adds) n =
         (if n \<in> set (map i_name adds) then Some (added_for n adds) else None))
   \<and> (\<forall>(items :: 'f invoice_item list) item. i_name item \<in> set (map i_name items) \<longrightarrow>
         map i_name (add_item items item) = map i_name items
         \<and> line_qty (add_item items item) (i_name item)
             = map_option (\<lambda>q. q + qty item) (line_qty items (i_name item)))
   \<and> (\<forall>(items :: 'f invoice_item list) item. i_name item \<notin> set (map i_name items) \<longrightarrow>
         add_item items item = items @ [item])"
proof -
  have a: "distinct (map i_name (foldl add_item [] adds))"
    by (rule foldl_add_item_distinct) simp
  have b: "set (map i_name (foldl add_item [] adds)) = set (map i_name adds)"
    using foldl_add_item_names[of "[]" adds] by simp
  have c: "\<forall>n. line_qty (foldl add_item [] adds) n =
         (if n \<in> set (map i_name adds) then Some (added_for n adds) else None)"
    unfolding foldl_add_item_line_qty by (simp add: line_qty_def)
  have d: "\<forall>items item. i_name (item :: 'f invoice_item) \<in> set (map i_name items) \<longrightarrow>
         map i_name (add_item items item) = map i_name items
         \<and> line_qty (add_item items item) (i_name item)
             = map_option (\<lambda>q. q + qty item) (line_qty items (i_name item))"
  proof (intro allI impI conjI)
    fix items :: "'f invoice_item list" and item :: "'f invoice_item"
    assume h: "i_name item \<in> set (map i_name items)"
    then show "map i_name (add_item items item) = map i_name items"
      by (simp add: add_item_names)
    from h obtain x where "find (\<lambda>i. i_name i = i_name item) items = Some x"
      by (cases "find (\<lambda>i. i_name i = i_name item) items") (auto simp: find_None_iff)
    then show "line_qty (add_item items item) (i_name item)
             = map_option (\<lambda>q. q + qty item) (line_qty items (i_name item))"
      unfolding add_item_line_qty by (simp add: line_qty_def)
  qed
  have e: "\<forall>items item. i_name (item :: 'f invoice_item) \<notin> set (map i_name items) \<longrightarrow>
         add_item items item = items @ [item]"
    by (intro allI impI add_item_append)
  show ?thesis by (intro conjI a b c d e)
qed

text \<open>Ten units twice give one line of twenty.\<close>

theorem add_item_merges_by_exact_name_witness:
  "map i_name (foldl add_item []
      [example_item ''Aspirin'' 10, example_item ''Brufen'' 1, example_item ''Aspirin'' 10])
     = [''Aspirin'', ''Brufen'']
   \<and> distinct (map i_name (foldl add_item []
      [example_item ''Aspirin'' 10, example_item ''Brufen'' 1, example_item ''Aspirin'' 10]))
   \<and> line_qty (foldl add_item []
      [example_item ''Aspirin'' 10, example_item ''Brufen'' 1, example_item ''Aspirin'' 10]) ''Aspirin''
     = Some 20
   \<and> i_name (example_item ''Aspirin'' 10) \<in> set (map i_name [example_item ''Aspirin'' 10, example_item ''Brufen'' 1])
   \<and> map i_name (add_item [example_item ''Aspirin'' 10, example_item ''Brufen'' 1] (example_item ''Aspirin'' 10))
     = map i_name [example_item ''Aspirin'' 10, example_item ''Brufen'' 1]
   \<and> i_name (example_item ''Brufen'' 1) \<notin> set (map i_name [example_item ''Aspirin'' 10])
   \<and> add_item [example_item ''Aspirin'' 10] (example_item ''Brufen'' 1)
     = [example_item ''Aspirin'' 10] @ [example_item ''Brufen'' 1]"
proof -
  let ?adds = "[example_item ''Aspirin'' 10, example_item ''Brufen'' 1, example_item ''Aspirin'' 10]"
  note t = add_item_merges_by_exact_name[of ?adds]
  have n: "map i_name (foldl add_item [] ?adds) = [''Aspirin'', ''Brufen'']"
    by (simp add: example_item_def)
  have a: "added_for ''Aspirin'' ?adds = 20" by (simp add: added_for_def example_item_def)
  have q: "line_qty (foldl add_item [] ?adds) ''Aspirin'' = Some 20"
    using t a by (simp add: example_item_def)
  have m1: "i_name (example_item ''Aspirin'' 10) \<in> set (map i_name [example_item ''Aspirin'' 10, example_item ''Brufen'' 1])"
    and m2: "i_name (example_item ''Brufen'' 1) \<notin> set (map i_name [example_item ''Aspirin'' 10])"
    by (simp_all add: example_item_def)
  from t m1 have u1: "map i_name (add_item [example_item ''Aspirin'' 10, example_item ''Brufen'' 1] (example_item ''Aspirin'' 10))
     = map i_name [example_item ''Aspirin'' 10, example_item ''Brufen'' 1]" by blast
  from t m2 have u2: "add_item [example_item ''Aspirin'' 10] (example_item ''Brufen'' 1)
     = [example_item ''Aspirin'' 10] @ [example_item ''Brufen'' 1]" by blast
  from t have d: "distinct (map i_name (foldl add_item [] ?adds))" by blast
  show ?thesis using n d q m1 m2 u1 u2 by blast
qed

text \<open>
  C10. The two merges agree: for adds with the same names and quantities, in the same
  order, \<open>Invoice.add_item\<close> from an empty invoice and \<open>_add_or_update_item\<close> of the
  second window from an empty list of items give lines with the same names and the
  same quantities, in the same order.
\<close>

theorem cart_merges_agree:
  assumes "map (\<lambda>i. (i_name i, qty i)) adds = map (\<lambda>(m, q). (m_name m, q)) adds2"
    and "invoice_items w = []"
  shows "map (\<lambda>i. (i_name i, qty i)) (foldl add_item [] adds)
       = map (\<lambda>l. (m_name (medicine l), quantity l))
           (invoice_items (foldl (\<lambda>w (m, q). add_or_update_item w m q) w adds2))"
proof -
  have "\<And>items w. map (\<lambda>i. (i_name i, qty i)) items
        = map (\<lambda>l. (m_name (medicine l), quantity l)) (invoice_items w) \<Longrightarrow>
      map (\<lambda>i. (i_name i, qty i)) adds = map (\<lambda>(m, q). (m_name m, q)) adds2 \<Longrightarrow>
      map (\<lambda>i. (i_name i, qty i)) (foldl add_item items adds)
       = map (\<lambda>l. (m_name (medicine l), quantity l))
           (invoice_items (foldl (\<lambda>w (m, q). add_or_update_item w m q) w adds2))"
  proof (induction adds arbitrary: adds2)
    case Nil
    then show ?case by simp
  next
    case (Cons a adds)
    from Cons.prems(2) obtain m q rest where a2: "adds2 = (m, q) # rest" by (cases adds2) auto
    with Cons.prems(2) have h: "i_name a = m_name m" "qty a = q"
      and t: "map (\<lambda>i. (i_name i, qty i)) adds = map (\<lambda>(m, q). (m_name m, q)) rest"
      by simp_all
    have "map (\<lambda>i. (i_name i, qty i)) (add_item items a)
        = map (\<lambda>l. (m_name (medicine l), quantity l)) (invoice_items (add_or_update_item w m q))"
      using merge_step[OF Cons.prems(1) h] by (simp add: add_or_update_item_def)
    from Cons.IH[OF this t] show ?case unfolding a2 by simp
  qed
  from this[of "[]" w] assms show ?thesis by simp
qed

text \<open>Three adds, two names.\<close>

theorem cart_merges_agree_witness:
  "map (\<lambda>i. (i_name i, qty i)) [example_item ''Aspirin'' 10, example_item ''Brufen'' 1, example_item ''Aspirin'' 10]
     = map (\<lambda>(m, q). (m_name m, q))
         [(example_medicine ''Aspirin'', 10), (example_medicine ''Brufen'', 1), (example_medicine ''Aspirin'', 10)]
   \<and> invoice_items example_window2 = []
   \<and> map (\<lambda>l. (m_name (medicine l), quantity l))
        (invoice_items (foldl (\<lambda>w (m, q). add_or_update_item w m q) example_window2
           [(example_medicine ''Aspirin'', 10), (example_medicine ''Brufen'', 1), (example_medicine ''Aspirin'', 10)]))
     = [(''Aspirin'', 20), (''Brufen'', 1)]"
proof -
  have a: "map (\<lambda>i. (i_name i, qty i)) [example_item ''Aspirin'' 10, example_item ''Brufen'' 1, example_item ''Aspirin'' 10]
     = map (\<lambda>(m, q). (m_name m, q))
         [(example_medicine ''Aspirin'', 10), (example_medicine ''Brufen'', 1), (example_medicine ''Aspirin'', 10)]"
    by (simp add: example_item_def example_medicine_def)
  have b: "invoice_items example_window2 = []"
    by (simp add: example_window2_def load_inventory_def example_medicines clear_selection2_def)
  have c: "map (\<lambda>i. (i_name i, qty i)) (foldl add_item []
      [example_item ''Aspirin'' 10, example_item ''Brufen'' 1, example_item ''Aspirin'' 10])
     = [(''Aspirin'', 20), (''Brufen'', 1)]"
    by (simp add: example_item_def)
  show ?thesis using cart_merges_agree[OF a b] a b c by simp
qed

text \<open>
  C4, as stated, fails for the last identity: float subtraction and addition round. For
  the invoice of two units at 0.15 the subtotal is the double 0.3; at 10 percent the
  discount is the double 0.03 and the net total the double 0.27 (the exact difference
  is half way between two doubles), and their float sum is the double
  0.30000000000000004, which is not the subtotal. This is so for both ways of summing
  the line totals.
\<close>

theorem discount_plus_net_rounded_counterexample:
  "round_double (15 / 100) = Finite (5404319552844595 / 36028797018963968)
   \<and> subtotal Sequential example_invoice = Inr (Finite (5404319552844595 / 18014398509481984))
   \<and> discount_amount Sequential example_invoice (Finite 10)
       = Inr (Finite (1080863910568919 / 36028797018963968))
   \<and> net_total Sequential example_invoice (Finite 10)
       = Inr (Finite (607985949695017 / 2251799813685248))
   \<and> fadd (Finite (1080863910568919 / 36028797018963968)) (Finite (607985949695017 / 2251799813685248))
       = Finite (1351079888211149 / 4503599627370496)
   \<and> discount_plus_net_is_subtotal Sequential example_invoice (Finite 10) = Inr False
   \<and> discount_plus_net_is_subtotal Compensated example_invoice (Finite 10) = Inr False"
  by (simp add: example_doubles example_subtotal example_discount example_products
        discount_plus_net_is_subtotal_def py_eq_def del: fadd.simps)

text \<open>
  C4, amended. For an invoice whose subtotal is a finite float \<open>s\<close>: the net total at
  0 percent is \<open>s\<close> and at 100 percent is 0; the discount at \<open>p\<close> percent is the
  float product of \<open>s\<close> and \<open>p / 100.0\<close>, and the net total the float difference of
  \<open>s\<close> and the discount; and when the discount is finite and the exact difference
  \<open>s - d\<close> is a double, so that the subtraction does not round, the net total is that
  difference and \<open>discount_amount(p) + net_total(p) == subtotal()\<close> is true.
\<close>

theorem net_total_of_finite_subtotal:
  assumes "subtotal m items = Inr (Finite s)"
  shows "net_total m items (Finite 0) = Inr (Finite s)
     \<and> net_total m items (Finite 100) = Inr (Finite 0)
     \<and> discount_amount m items p = Inr (fmul (Finite s) (div_by_100 p))
     \<and> net_total m items p = Inr (fsub (Finite s) (fmul (Finite s) (div_by_100 p)))
     \<and> (\<forall>d. discount_amount m items p = Inr (Finite d) \<and> round_double (s - d) = Finite (s - d) \<longrightarrow>
           net_total m items p = Inr (Finite (s - d))
         \<and> discount_plus_net_is_subtotal m items p = Inr True)"
proof -
  note sd = subtotal_is_double[OF assms]
  have d: "\<And>q. discount_amount m items q = Inr (fmul (Finite s) (div_by_100 q))"
    using assms by (simp add: discount_amount_def)
  have n: "\<And>q. net_total m items q = Inr (fsub (Finite s) (fmul (Finite s) (div_by_100 q)))"
    using assms by (simp add: net_total_def d)
  have a: "net_total m items (Finite 0) = Inr (Finite s)"
    unfolding n by (simp add: div_by_100_def fsub_def sd round_double_zero)
  have b: "net_total m items (Finite 100) = Inr (Finite 0)"
    unfolding n by (simp add: div_by_100_def fsub_def sd round_double_one round_double_zero)
  have c: "\<forall>d. discount_amount m items p = Inr (Finite d) \<and> round_double (s - d) = Finite (s - d) \<longrightarrow>
           net_total m items p = Inr (Finite (s - d))
         \<and> discount_plus_net_is_subtotal m items p = Inr True"
  proof (intro allI impI, elim conjE)
    fix dv
    assume dd: "discount_amount m items p = Inr (Finite dv)"
      and ex: "round_double (s - dv) = Finite (s - dv)"
    from dd have f: "fmul (Finite s) (div_by_100 p) = Finite dv" unfolding d by simp
    have nn: "net_total m items p = Inr (Finite (s - dv))"
      unfolding n f by (simp add: fsub_def ex)
    have "discount_plus_net_is_subtotal m items p = Inr True"
      unfolding discount_plus_net_is_subtotal_def dd nn assms
      by (simp add: py_eq_def sd)
    with nn show "net_total m items p = Inr (Finite (s - dv))
         \<and> discount_plus_net_is_subtotal m items p = Inr True" by simp
  qed
  show ?thesis by (rule conjI[OF a conjI[OF b conjI[OF d conjI[OF n c]]]])
qed

text \<open>
  The invoice of two units at 0.15: net totals at 0 and at 100 percent, and at 50
  percent, where the discount is the double 0.15 and the subtraction is exact.
\<close>

theorem net_total_of_finite_subtotal_witness:
  "subtotal Sequential example_invoice = Inr (Finite (5404319552844595 / 18014398509481984))
   \<and> net_total Sequential example_invoice (Finite 0)
       = Inr (Finite (5404319552844595 / 18014398509481984))
   \<and> net_total Sequential example_invoice (Finite 100) = Inr (Finite 0)
   \<and> discount_amount Sequential example_invoice (Finite 50)
       = Inr (Finite (5404319552844595 / 36028797018963968))
   \<and> round_double (5404319552844595 / 18014398509481984 - 5404319552844595 / 36028797018963968)
       = Finite (5404319552844595 / 18014398509481984 - 5404319552844595 / 36028797018963968)
   \<and> net_total Sequential example_invoice (Finite 50)
       = Inr (Finite (5404319552844595 / 18014398509481984 - 5404319552844595 / 36028797018963968))
   \<and> discount_plus_net_is_subtotal Sequential example_invoice (Finite 50) = Inr True"
proof -
  note s = example_subtotal[of Sequential]
  note t = net_total_of_finite_subtotal[OF s, of "Finite 50"]
  have d: "discount_amount Sequential example_invoice (Finite 50)
       = Inr (Finite (5404319552844595 / 36028797018963968))"
    by (simp add: discount_amount_def s div_by_100_def example_doubles example_half del: fmul.simps)
  note e = example_half(2)
  note c = t[THEN conjunct2, THEN conjunct2, THEN conjunct2, THEN conjunct2, THEN spec, THEN mp,
             OF conjI[OF d e]]
  show ?thesis
    by (rule conjI[OF s conjI[OF conjunct1[OF t] conjI[OF conjunct1[OF conjunct2[OF t]]
          conjI[OF d conjI[OF e c]]]]])
qed

end
